theory Spec2Isabelle
  imports Complex_Main "HOL-Library.Sublist" "HOL-Library.Log_Nat"
begin

section \<open>The canvas effects of App.jsx\<close>

text \<open>
  This theory embeds the effect core of \<^verbatim>\<open>src/pixel-portfolio/src/App.jsx\<close>: the helpers
  \<^verbatim>\<open>throttle\<close> and \<^verbatim>\<open>hexToRgb\<close>, the dot grid (\<^verbatim>\<open>buildGrid\<close>, \<^verbatim>\<open>draw\<close>, \<^verbatim>\<open>onMove\<close>,
  \<^verbatim>\<open>onClick\<close>) and the click sparks (\<^verbatim>\<open>easeFunc\<close>, \<^verbatim>\<open>draw\<close>, \<^verbatim>\<open>handleClick\<close>).

  JavaScript numbers are modelled as real numbers. In \<^verbatim>\<open>buildGrid\<close> the number of dots is
  the \<^verbatim>\<open>Math.floor\<close> of a quotient, so there the rounding of every operation to an IEEE
  double is part of the model (\<open>toDouble\<close>); elsewhere the theorems speak about exact
  arithmetic. Where JavaScript would divide by zero or leave the finite doubles (and
  produce an infinity or NaN) the theorems carry a hypothesis that excludes it. Values that
  the code only ever uses as loop counts are integers.
  The props of a component are a record, with the fields named as in the source.
\<close>

subsection \<open>throttle\<close>

text \<open>
  \<^verbatim>\<open>throttle(func, limit)\<close> returns a closure over the variable \<^verbatim>\<open>lastCall\<close>, which
  starts at 0. Each call of the closure reads the clock (\<^verbatim>\<open>performance.now()\<close>); the
  event is handed to \<^verbatim>\<open>func\<close> when \<^verbatim>\<open>now - lastCall >= limit\<close>, and then \<^verbatim>\<open>lastCall\<close>
  becomes \<^verbatim>\<open>now\<close>; otherwise nothing happens. An event is a pair of the clock value read
  for it and its arguments. \<open>throttle_step\<close> is one call of the closure on the closure
  variable and the state that \<^verbatim>\<open>func\<close> works on.
\<close>

definition throttle_step ::
  "('e \<Rightarrow> 's \<Rightarrow> 's) \<Rightarrow> real \<Rightarrow> real \<times> 'e \<Rightarrow> real \<times> 's \<Rightarrow> real \<times> 's" where
  "throttle_step func limit ev st =
     (let now = fst ev; lastCall = fst st in
      if now - lastCall \<ge> limit then (now, func (snd ev) (snd st)) else (lastCall, snd st))"

text \<open>The closure run over a sequence of events, from the initial \<^verbatim>\<open>lastCall = 0\<close>.\<close>

definition throttle :: "('e \<Rightarrow> 's \<Rightarrow> 's) \<Rightarrow> real \<Rightarrow> (real \<times> 'e) list \<Rightarrow> 's \<Rightarrow> real \<times> 's" where
  "throttle func limit evs s = foldl (\<lambda>st ev. throttle_step func limit ev st) (0, s) evs"

text \<open>
  The events that reach \<^verbatim>\<open>func\<close>, in order: the same test as \<open>throttle_step\<close>, keeping the
  admitted events instead of applying \<^verbatim>\<open>func\<close> to them.
\<close>

fun throttle_calls :: "real \<Rightarrow> real \<Rightarrow> (real \<times> 'e) list \<Rightarrow> (real \<times> 'e) list" where
  "throttle_calls limit lastCall [] = []"
| "throttle_calls limit lastCall (ev # evs) =
     (if fst ev - lastCall \<ge> limit then ev # throttle_calls limit (fst ev) evs
      else throttle_calls limit lastCall evs)"

text \<open>\<^verbatim>\<open>const throttledMove = throttle(onMove, 50)\<close>: the limit of the grid's handler.\<close>

definition throttledMove_limit :: real where
  "throttledMove_limit = 50"

subsection \<open>hexToRgb\<close>

record rgb =
  rgb_r :: int
  rgb_g :: int
  rgb_b :: int

text \<open>The character class \<^verbatim>\<open>[a-f\d]\<close> under the flag \<^verbatim>\<open>i\<close>.\<close>

definition isHexDigit :: "char \<Rightarrow> bool" where
  "isHexDigit c = (c \<in> set ''0123456789abcdefABCDEF'')"

text \<open>The value of one digit in base 16, as \<^verbatim>\<open>parseInt\<close> reads it.\<close>

definition hexDigitValue :: "char \<Rightarrow> int" where
  "hexDigitValue c =
     (let n = (of_char c :: int) in
      if 48 \<le> n \<and> n \<le> 57 then n - 48
      else if 97 \<le> n \<and> n \<le> 102 then n - 87
      else n - 55)"

text \<open>
  \<^verbatim>\<open>parseInt(s, 16)\<close> on a string of hexadecimal digits (the only strings the capture
  groups can hold): the digits are accumulated from the left.
\<close>

definition parseInt16 :: "string \<Rightarrow> int" where
  "parseInt16 s = foldl (\<lambda>acc c. 16 * acc + hexDigitValue c) 0 s"

text \<open>
  \<^verbatim>\<open>hex.match(/^#?([a-f\d]{2})([a-f\d]{2})([a-f\d]{2})$/i)\<close>: an optional \<^verbatim>\<open>#\<close>, then
  exactly six hexadecimal digits up to the end of the string. The result is the three
  capture groups, or \<open>None\<close> for JavaScript's \<^verbatim>\<open>null\<close>.
\<close>

definition hexMatch :: "string \<Rightarrow> (string \<times> string \<times> string) option" where
  "hexMatch hex =
     (let body = (if hex \<noteq> [] \<and> hd hex = CHR ''#'' then tl hex else hex) in
      if length body = 6 \<and> list_all isHexDigit body
      then Some (take 2 body, take 2 (drop 2 body), drop 4 body)
      else None)"

definition hexToRgb :: "string \<Rightarrow> rgb" where
  "hexToRgb hex =
     (case hexMatch hex of
        None \<Rightarrow> \<lparr>rgb_r = 0, rgb_g = 0, rgb_b = 0\<rparr>
      | Some (m1, m2, m3) \<Rightarrow>
          \<lparr>rgb_r = parseInt16 m1, rgb_g = parseInt16 m2, rgb_b = parseInt16 m3\<rparr>)"

text \<open>
  The language of the pattern, stated on its own: the strings that are six hexadecimal
  digits, with or without a leading \<^verbatim>\<open>#\<close>.
\<close>

definition hexColorPattern :: "string \<Rightarrow> bool" where
  "hexColorPattern s =
     (\<exists>ds. length ds = 6 \<and> list_all isHexDigit ds \<and> (s = ds \<or> s = CHR ''#'' # ds))"

subsection \<open>DotGrid: props and data\<close>

text \<open>The props of \<^verbatim>\<open>DotGrid\<close>, its defaults, and the props \<^verbatim>\<open>App\<close> passes.\<close>

record dotGridProps =
  dotSize :: real
  gap :: real
  baseColor :: string
  activeColor :: string
  proximity :: real
  speedTrigger :: real
  shockRadius :: real
  shockStrength :: real
  maxSpeed :: real
  resistance :: real
  returnDuration :: real

definition DotGrid_defaults :: dotGridProps where
  "DotGrid_defaults =
     \<lparr>dotSize = 16, gap = 32, baseColor = ''#5227FF'', activeColor = ''#5227FF'',
      proximity = 150, speedTrigger = 100, shockRadius = 250, shockStrength = 5,
      maxSpeed = 5000, resistance = 750, returnDuration = 3 / 2\<rparr>"

definition App_DotGrid :: dotGridProps where
  "App_DotGrid =
     DotGrid_defaults\<lparr>dotSize := 2, gap := 26, baseColor := ''#dcdcdc'',
       activeColor := ''#FF8C00'', proximity := 90, shockRadius := 250, shockStrength := 5,
       resistance := 400, returnDuration := 1 / 2\<rparr>"

text \<open>A dot; the field \<^verbatim>\<open>_inertiaApplied\<close> is written without its underscore.\<close>

record dot =
  cx :: real
  cy :: real
  xOffset :: real
  yOffset :: real
  inertiaApplied :: bool

text \<open>\<^verbatim>\<open>pointerRef.current\<close>; its fields \<^verbatim>\<open>x\<close> and \<^verbatim>\<open>y\<close> are \<open>ptr_x\<close> and \<open>ptr_y\<close>.\<close>

record pointer =
  ptr_x :: real
  ptr_y :: real
  vx :: real
  vy :: real
  speed :: real
  lastTime :: real
  lastX :: real
  lastY :: real

definition pointerRef_init :: pointer where
  "pointerRef_init =
     \<lparr>ptr_x = 0, ptr_y = 0, vx = 0, vy = 0, speed = 0, lastTime = 0, lastX = 0, lastY = 0\<rparr>"

text \<open>\<^verbatim>\<open>Math.hypot\<close> of two arguments.\<close>

definition hypot :: "real \<Rightarrow> real \<Rightarrow> real" where
  "hypot a c = sqrt (a * a + c * c)"

subsection \<open>Double-precision arithmetic\<close>

text \<open>
  A JavaScript number is an IEEE 754 double: zero, or \<open>m * 2^(e - 52)\<close> with an integer
  mantissa \<open>m\<close> of at most 53 bits and an exponent \<open>e\<close> from -1022 on (the subnormal
  numbers share the exponent -1022). The result of an arithmetic operation is the exact
  result rounded to the nearest double, a tie going to the even mantissa. Infinities, NaN
  and the sign of zero are not modelled.

  \<open>roundTiesToEven\<close> rounds a real number to the nearest integer, a tie to the even one.
\<close>

definition roundTiesToEven :: "real \<Rightarrow> int" where
  "roundTiesToEven x =
     (let n = \<lfloor>x\<rfloor>; r = x - of_int n in
      if r < 1 / 2 then n
      else if 1 / 2 < r then n + 1
      else if even n then n else n + 1)"

text \<open>
  The binary exponent of a positive number: the \<open>e\<close> with \<open>2^e \<le> x < 2^(e + 1)\<close>
  (lemmas \<open>ilog2_bounds\<close> and \<open>ilog2_eqI\<close>), computed from the bit length of \<open>x\<close> or of
  \<open>1 / x\<close>.
\<close>

definition ilog2 :: "real \<Rightarrow> int" where
  "ilog2 x =
     (if 1 \<le> x then int (floorlog 2 (nat \<lfloor>x\<rfloor>)) - 1
      else - int (floorlog 2 (nat (\<lceil>1 / x\<rceil> - 1))))"

text \<open>The double nearest to a real number: the value an operation stores.\<close>

definition toDouble :: "real \<Rightarrow> real" where
  "toDouble x =
     (if x = 0 then 0
      else (let e = max (ilog2 \<bar>x\<bar>) (- 1022);
                ulp = 2 powi (e - 52)
            in of_int (roundTiesToEven (x / ulp)) * ulp))"

subsection \<open>buildGrid\<close>

text \<open>
  Lines 67 to 87 of \<^verbatim>\<open>buildGrid\<close>: the dots for a wrapper of the given width and
  height. Every sum, difference, product and quotient is rounded to a double where the
  source computes it. \<^verbatim>\<open>cols\<close> and \<^verbatim>\<open>rows\<close> are the results of \<^verbatim>\<open>Math.floor\<close>, which
  is exact; the loop \<^verbatim>\<open>for (let y = 0; y < rows; y++)\<close> runs \<open>nat rows\<close> times (not at
  all when \<open>rows \<le> 0\<close>), and the inner loop likewise, each pass pushing one dot. The
  resizing of the canvas in lines 60 to 65 does not touch the dots.
\<close>

definition gridDots :: "dotGridProps \<Rightarrow> real \<Rightarrow> real \<Rightarrow> dot list" where
  "gridDots p width height =
     (let cols = \<lfloor>toDouble (toDouble (width + gap p) / toDouble (dotSize p + gap p))\<rfloor>;
          rows = \<lfloor>toDouble (toDouble (height + gap p) / toDouble (dotSize p + gap p))\<rfloor>;
          cell = toDouble (dotSize p + gap p);
          gridW = toDouble (toDouble (cell * of_int cols) - gap p);
          gridH = toDouble (toDouble (cell * of_int rows) - gap p);
          extraX = toDouble (width - gridW);
          extraY = toDouble (height - gridH);
          startX = toDouble (toDouble (extraX / 2) + toDouble (dotSize p / 2));
          startY = toDouble (toDouble (extraY / 2) + toDouble (dotSize p / 2))
      in concat (map (\<lambda>y. map (\<lambda>x.
            \<lparr>cx = toDouble (startX + toDouble (real x * cell)),
             cy = toDouble (startY + toDouble (real y * cell)),
             xOffset = 0, yOffset = 0, inertiaApplied = False\<rparr>)
            [0..<nat cols]) [0..<nat rows]))"

text \<open>
  \<^verbatim>\<open>buildGrid\<close>: \<open>wrap\<close> is the size of the wrapper element when there is one, \<open>canvas\<close>
  says whether the canvas element is there. Without either the call returns at once and
  \<^verbatim>\<open>dotsRef.current\<close> stays as it is; otherwise it is replaced as a whole.
\<close>

definition buildGrid :: "dotGridProps \<Rightarrow> (real \<times> real) option \<Rightarrow> bool \<Rightarrow> dot list \<Rightarrow> dot list" where
  "buildGrid p wrap canvas dots =
     (case wrap of
        None \<Rightarrow> dots
      | Some (width, height) \<Rightarrow> if \<not> canvas then dots else gridDots p width height)"

text \<open>
  The grid is the product of two axes that the source computes side by side: the width
  gives \<^verbatim>\<open>cols\<close>, \<^verbatim>\<open>gridW\<close>, \<^verbatim>\<open>extraX\<close>, \<^verbatim>\<open>startX\<close> and the \<^verbatim>\<open>cx\<close> of a
  column, the height gives \<^verbatim>\<open>rows\<close>, \<^verbatim>\<open>gridH\<close>, \<^verbatim>\<open>extraY\<close>, \<^verbatim>\<open>startY\<close> and the
  \<^verbatim>\<open>cy\<close> of a row, by the same expressions. \<open>axisCount\<close> and \<open>axisCoord\<close> name
  these expressions for one axis of the given extent; lemma \<open>gridDots_axes\<close> shows that
  \<open>gridDots\<close> is made of them.
\<close>

definition axisCount :: "dotGridProps \<Rightarrow> real \<Rightarrow> int" where
  "axisCount p extent =
     \<lfloor>toDouble (toDouble (extent + gap p) / toDouble (dotSize p + gap p))\<rfloor>"

definition axisCoord :: "dotGridProps \<Rightarrow> real \<Rightarrow> nat \<Rightarrow> real" where
  "axisCoord p extent i =
     (let cell = toDouble (dotSize p + gap p);
          grid = toDouble (toDouble (cell * of_int (axisCount p extent)) - gap p);
          extra = toDouble (extent - grid);
          start = toDouble (toDouble (extra / 2) + toDouble (dotSize p / 2))
      in toDouble (start + toDouble (real i * cell)))"



subsection \<open>DotGrid: draw\<close>

text \<open>
  The value given to \<^verbatim>\<open>ctx.fillStyle\<close>: either the prop \<^verbatim>\<open>baseColor\<close> as it is, or the
  string \<^verbatim>\<open>rgb(r,g,b)\<close> built from three rounded channels.
\<close>

datatype fillStyle = ColorString string | RgbString int int int

text \<open>
  The body of the loop of \<^verbatim>\<open>draw\<close> for one dot. \<^verbatim>\<open>Math.round\<close> rounds halves up, as
  \<open>round\<close> does.
\<close>

definition dotFill :: "dotGridProps \<Rightarrow> pointer \<Rightarrow> dot \<Rightarrow> fillStyle" where
  "dotFill p pr d =
     (let baseRgb = hexToRgb (baseColor p);
          activeRgb = hexToRgb (activeColor p);
          proxSq = proximity p * proximity p;
          dx = cx d - ptr_x pr;
          dy = cy d - ptr_y pr;
          dsq = dx * dx + dy * dy
      in if dsq \<le> proxSq then
           (let dist = sqrt dsq;
                t = 1 - dist / proximity p
            in RgbString
                 (round (of_int (rgb_r baseRgb) + (of_int (rgb_r activeRgb) - of_int (rgb_r baseRgb)) * t))
                 (round (of_int (rgb_g baseRgb) + (of_int (rgb_g activeRgb) - of_int (rgb_g baseRgb)) * t))
                 (round (of_int (rgb_b baseRgb) + (of_int (rgb_b activeRgb) - of_int (rgb_b baseRgb)) * t)))
         else ColorString (baseColor p))"

text \<open>One frame: for every dot the point its circle is drawn at, and its fill.\<close>

definition drawDots :: "dotGridProps \<Rightarrow> pointer \<Rightarrow> dot list \<Rightarrow> (real \<times> real \<times> fillStyle) list" where
  "drawDots p pr dots = map (\<lambda>d. (cx d + xOffset d, cy d + yOffset d, dotFill p pr d)) dots"

subsection \<open>DotGrid: onMove and onClick\<close>

text \<open>
  Modelled from the spec: the animation library gsap, which \<^verbatim>\<open>App.jsx\<close> imports and
  which is not part of the source. A tween is an animation in flight on one dot. The spec's
  "launch a displacement driven by an inertial impulse" is \<^verbatim>\<open>gsap.to(dot, {inertia: ...})\<close>,
  an \<open>InertiaTween\<close> with its \<^verbatim>\<open>pushX\<close>, \<^verbatim>\<open>pushY\<close>, \<^verbatim>\<open>resistance\<close> and the
  \<^verbatim>\<open>returnDuration\<close> its \<^verbatim>\<open>onComplete\<close> closure holds; the spec's "animate offset back
  to (0,0)" is the second \<^verbatim>\<open>gsap.to\<close>, a \<open>ReturnTween\<close> with its duration. The tweens
  in flight on a dot are kept next to the dot: \<^verbatim>\<open>gsap.to\<close> adds one, "cancel any existing
  animation" (\<^verbatim>\<open>gsap.killTweensOf\<close>) removes them all without running \<^verbatim>\<open>onComplete\<close>.
\<close>

datatype tween = InertiaTween real real real real | ReturnTween real

type_synonym target = "dot \<times> tween list"

definition killTweensOf :: "target \<Rightarrow> target" where
  "killTweensOf tg = (fst tg, [])"

definition gsap_to :: "tween \<Rightarrow> target \<Rightarrow> target" where
  "gsap_to tw tg = (fst tg, snd tg @ [tw])"

fun isInertia :: "tween \<Rightarrow> bool" where
  "isInertia (InertiaTween a c e f) = True"
| "isInertia (ReturnTween f) = False"

text \<open>The state of one \<^verbatim>\<open>DotGrid\<close>: the pointer and the dots, each with its tweens.\<close>

record grid =
  pointerRef :: pointer
  dotsRef :: "target list"

text \<open>
  The first part of \<^verbatim>\<open>onMove\<close> (lines 151 to 174): the new pointer state from the clock,
  the event's \<^verbatim>\<open>clientX\<close> and \<^verbatim>\<open>clientY\<close>, and the canvas rectangle's \<^verbatim>\<open>left\<close> and
  \<^verbatim>\<open>top\<close>. \<^verbatim>\<open>pr.lastTime ? now - pr.lastTime : 16\<close> tests \<^verbatim>\<open>lastTime\<close> against 0.
\<close>

definition onMove_pointer ::
  "dotGridProps \<Rightarrow> real \<Rightarrow> real \<Rightarrow> real \<Rightarrow> real \<Rightarrow> real \<Rightarrow> pointer \<Rightarrow> pointer" where
  "onMove_pointer p now clientX clientY rectLeft rectTop pr =
     (let dt = (if lastTime pr \<noteq> 0 then now - lastTime pr else 16);
          dx = clientX - lastX pr;
          dy = clientY - lastY pr;
          vx0 = (dx / dt) * 1000;
          vy0 = (dy / dt) * 1000;
          speed0 = hypot vx0 vy0;
          clamped = (if speed0 > maxSpeed p
                     then (let scale = maxSpeed p / speed0
                           in (vx0 * scale, vy0 * scale, maxSpeed p))
                     else (vx0, vy0, speed0))
      in pr\<lparr>lastTime := now, lastX := clientX, lastY := clientY,
            vx := fst clamped, vy := fst (snd clamped), speed := snd (snd clamped),
            ptr_x := clientX - rectLeft, ptr_y := clientY - rectTop\<rparr>)"

text \<open>
  The body of the loop of \<^verbatim>\<open>onMove\<close> for one dot, with the pointer state already
  updated (the locals \<^verbatim>\<open>speed\<close>, \<^verbatim>\<open>vx\<close>, \<^verbatim>\<open>vy\<close> are the values just stored).
\<close>

definition onMove_dot :: "dotGridProps \<Rightarrow> pointer \<Rightarrow> target \<Rightarrow> target" where
  "onMove_dot p pr tg =
     (let d = fst tg;
          dist = hypot (cx d - ptr_x pr) (cy d - ptr_y pr)
      in if speed pr > speedTrigger p \<and> dist < proximity p \<and> \<not> inertiaApplied d then
           (let pushX = cx d - ptr_x pr + vx pr * (5 / 1000);
                pushY = cy d - ptr_y pr + vy pr * (5 / 1000)
            in gsap_to (InertiaTween pushX pushY (resistance p) (returnDuration p))
                 (killTweensOf (d\<lparr>inertiaApplied := True\<rparr>, snd tg)))
         else tg)"

definition onMove ::
  "dotGridProps \<Rightarrow> real \<Rightarrow> real \<Rightarrow> real \<Rightarrow> real \<Rightarrow> real \<Rightarrow> grid \<Rightarrow> grid" where
  "onMove p now clientX clientY rectLeft rectTop g =
     (let pr = onMove_pointer p now clientX clientY rectLeft rectTop (pointerRef g)
      in \<lparr>pointerRef = pr, dotsRef = map (onMove_dot p pr) (dotsRef g)\<rparr>)"

text \<open>The body of the loop of \<^verbatim>\<open>onClick\<close> for one dot; the click is at \<open>(clickX, clickY)\<close>.\<close>

definition onClick_dot :: "dotGridProps \<Rightarrow> real \<Rightarrow> real \<Rightarrow> target \<Rightarrow> target" where
  "onClick_dot p clickX clickY tg =
     (let d = fst tg;
          dist = hypot (cx d - clickX) (cy d - clickY)
      in if dist < shockRadius p \<and> \<not> inertiaApplied d then
           (let falloff = max 0 (1 - dist / shockRadius p);
                pushX = (cx d - clickX) * shockStrength p * falloff;
                pushY = (cy d - clickY) * shockStrength p * falloff
            in gsap_to (InertiaTween pushX pushY (resistance p) (returnDuration p))
                 (killTweensOf (d\<lparr>inertiaApplied := True\<rparr>, snd tg)))
         else tg)"

definition onClick :: "dotGridProps \<Rightarrow> real \<Rightarrow> real \<Rightarrow> real \<Rightarrow> real \<Rightarrow> grid \<Rightarrow> grid" where
  "onClick p clientX clientY rectLeft rectTop g =
     g\<lparr>dotsRef := map (onClick_dot p (clientX - rectLeft) (clientY - rectTop)) (dotsRef g)\<rparr>"

text \<open>
  Modelled from the spec: what gsap does when a tween ends ("on settling"). When the
  inertia tween of a dot ends, with the offsets where the impulse left them, it leaves the
  tweens in flight and its \<^verbatim>\<open>onComplete\<close> of the source runs: the return tween is
  started, then \<^verbatim>\<open>_inertiaApplied\<close> is set to false. When a return tween ends the offsets
  are (0, 0). A completion for a tween that is not in flight does nothing.
\<close>

definition inertiaComplete :: "real \<Rightarrow> real \<Rightarrow> target \<Rightarrow> target" where
  "inertiaComplete endX endY tg =
     (case find isInertia (snd tg) of
        None \<Rightarrow> tg
      | Some tw \<Rightarrow>
          (case tw of
             ReturnTween f \<Rightarrow> tg
           | InertiaTween pushX pushY res retDur \<Rightarrow>
               (let started = gsap_to (ReturnTween retDur)
                                ((fst tg)\<lparr>xOffset := endX, yOffset := endY\<rparr>, remove1 tw (snd tg))
                in ((fst started)\<lparr>inertiaApplied := False\<rparr>, snd started))))"

definition returnComplete :: "target \<Rightarrow> target" where
  "returnComplete tg =
     (case find (\<lambda>tw. \<not> isInertia tw) (snd tg) of
        None \<Rightarrow> tg
      | Some tw \<Rightarrow> ((fst tg)\<lparr>xOffset := 0, yOffset := 0\<rparr>, remove1 tw (snd tg)))"

text \<open>
  What can happen to a grid: a call of \<^verbatim>\<open>onMove\<close> (clock, \<^verbatim>\<open>clientX\<close>, \<^verbatim>\<open>clientY\<close>,
  rectangle \<^verbatim>\<open>left\<close> and \<^verbatim>\<open>top\<close>), a call of \<^verbatim>\<open>onClick\<close>, and the end of a tween of
  the dot with a given index.
\<close>

datatype gridEvent =
    MouseMove real real real real real
  | MouseClick real real real real
  | InertiaDone nat real real
  | ReturnDone nat

fun gridStep :: "dotGridProps \<Rightarrow> grid \<Rightarrow> gridEvent \<Rightarrow> grid" where
  "gridStep p g (MouseMove now clientX clientY rectLeft rectTop) =
     onMove p now clientX clientY rectLeft rectTop g"
| "gridStep p g (MouseClick clientX clientY rectLeft rectTop) =
     onClick p clientX clientY rectLeft rectTop g"
| "gridStep p g (InertiaDone i endX endY) =
     (if i < length (dotsRef g)
      then g\<lparr>dotsRef := (dotsRef g)[i := inertiaComplete endX endY (dotsRef g ! i)]\<rparr>
      else g)"
| "gridStep p g (ReturnDone i) =
     (if i < length (dotsRef g)
      then g\<lparr>dotsRef := (dotsRef g)[i := returnComplete (dotsRef g ! i)]\<rparr>
      else g)"

definition gridRun :: "dotGridProps \<Rightarrow> grid \<Rightarrow> gridEvent list \<Rightarrow> grid" where
  "gridRun p g evs = foldl (gridStep p) g evs"

text \<open>
  A dot is at rest when its flag is clear and no tween is in flight on it. A dot has one
  animation at most when its tweens are none (flag clear), one return tween (flag clear)
  or one inertia tween (flag set).
\<close>

definition atRest :: "target \<Rightarrow> bool" where
  "atRest tg = (\<not> inertiaApplied (fst tg) \<and> snd tg = [])"

definition oneAnimation :: "target \<Rightarrow> bool" where
  "oneAnimation tg =
     (case snd tg of
        [] \<Rightarrow> \<not> inertiaApplied (fst tg)
      | [tw] \<Rightarrow> inertiaApplied (fst tg) = isInertia tw
      | _ \<Rightarrow> False)"

text \<open>
  A small grid for examples: a single dot at (14, 14), at rest. It is the grid that
  \<^verbatim>\<open>buildGrid\<close> makes of the page's props in a wrapper of 28 by 28 (lemma
  \<open>buildGrid_example\<close>).
\<close>

definition exampleGrid :: grid where
  "exampleGrid =
     \<lparr>pointerRef = pointerRef_init,
      dotsRef = [(\<lparr>cx = 14, cy = 14, xOffset = 0, yOffset = 0, inertiaApplied = False\<rparr>, [])]\<rparr>"

subsection \<open>ClickSpark\<close>

text \<open>
  The props of \<^verbatim>\<open>ClickSpark\<close>, its defaults, and the props \<^verbatim>\<open>App\<close> passes.
  \<^verbatim>\<open>sparkCount\<close> is used as the length of an array: a natural number.
\<close>

record clickSparkProps =
  sparkColor :: string
  sparkSize :: real
  sparkRadius :: real
  sparkCount :: nat
  duration :: real
  easing :: string
  extraScale :: real

definition ClickSpark_defaults :: clickSparkProps where
  "ClickSpark_defaults =
     \<lparr>sparkColor = ''#fff'', sparkSize = 10, sparkRadius = 15, sparkCount = 8,
      duration = 400, easing = ''ease-out'', extraScale = 1\<rparr>"

definition App_ClickSpark :: clickSparkProps where
  "App_ClickSpark =
     ClickSpark_defaults\<lparr>sparkColor := ''#FF8C00'', sparkSize := 12, sparkRadius := 25,
       sparkCount := 8, duration := 400\<rparr>"

text \<open>A spark; its fields \<^verbatim>\<open>x\<close> and \<^verbatim>\<open>y\<close> are \<open>spark_x\<close> and \<open>spark_y\<close>.\<close>

record spark =
  spark_x :: real
  spark_y :: real
  angle :: real
  startTime :: real

text \<open>\<^verbatim>\<open>handleClick\<close>: \<^verbatim>\<open>Array.from\<close> builds the new sparks, \<^verbatim>\<open>push\<close> appends them.\<close>

definition handleClick :: "clickSparkProps \<Rightarrow> real \<Rightarrow> real \<Rightarrow> real \<Rightarrow> spark list \<Rightarrow> spark list" where
  "handleClick q now clientX clientY sparks =
     (let newSparks = map (\<lambda>i.
            \<lparr>spark_x = clientX, spark_y = clientY,
             angle = (2 * pi * real i) / real (sparkCount q), startTime = now\<rparr>)
            [0..<sparkCount q]
      in sparks @ newSparks)"

text \<open>\<^verbatim>\<open>easeFunc\<close>: the \<^verbatim>\<open>switch\<close> on the prop \<^verbatim>\<open>easing\<close>.\<close>

definition easeFunc :: "string \<Rightarrow> real \<Rightarrow> real" where
  "easeFunc mode t =
     (if mode = ''linear'' then t
      else if mode = ''ease-in'' then t * t
      else if mode = ''ease-in-out'' then (if t < 1 / 2 then 2 * t * t else - 1 + (4 - 2 * t) * t)
      else t * (2 - t))"

text \<open>The line one spark is drawn as: from \<open>(x1, y1)\<close> to \<open>(x2, y2)\<close>.\<close>

record stroke =
  x1 :: real
  y1 :: real
  x2 :: real
  y2 :: real

text \<open>The locals \<^verbatim>\<open>eased\<close>, \<^verbatim>\<open>distance\<close> and \<^verbatim>\<open>lineLength\<close> of the filter callback.\<close>

definition sparkEased :: "clickSparkProps \<Rightarrow> real \<Rightarrow> spark \<Rightarrow> real" where
  "sparkEased q timestamp sp =
     (let elapsed = timestamp - startTime sp;
          progress = elapsed / duration q
      in easeFunc (easing q) progress)"

definition sparkDistance :: "clickSparkProps \<Rightarrow> real \<Rightarrow> spark \<Rightarrow> real" where
  "sparkDistance q timestamp sp = sparkEased q timestamp sp * sparkRadius q * extraScale q"

definition sparkLineLength :: "clickSparkProps \<Rightarrow> real \<Rightarrow> spark \<Rightarrow> real" where
  "sparkLineLength q timestamp sp = sparkSize q * (1 - sparkEased q timestamp sp)"

definition sparkStroke :: "clickSparkProps \<Rightarrow> real \<Rightarrow> spark \<Rightarrow> stroke" where
  "sparkStroke q timestamp sp =
     (let distance = sparkDistance q timestamp sp;
          lineLength = sparkLineLength q timestamp sp
      in \<lparr>x1 = spark_x sp + distance * cos (angle sp),
          y1 = spark_y sp + distance * sin (angle sp),
          x2 = spark_x sp + (distance + lineLength) * cos (angle sp),
          y2 = spark_y sp + (distance + lineLength) * sin (angle sp)\<rparr>)"

text \<open>
  One frame of \<^verbatim>\<open>draw\<close>: the \<^verbatim>\<open>filter\<close> callback runs on every spark in turn; it
  returns false for a spark whose \<^verbatim>\<open>elapsed >= duration\<close>, and otherwise draws the
  spark's line and returns true. The result is the new \<^verbatim>\<open>sparksRef.current\<close> and the
  lines drawn.
\<close>

fun drawSparks :: "clickSparkProps \<Rightarrow> real \<Rightarrow> spark list \<Rightarrow> spark list \<times> stroke list" where
  "drawSparks q timestamp [] = ([], [])"
| "drawSparks q timestamp (sp # rest) =
     (let elapsed = timestamp - startTime sp;
          r = drawSparks q timestamp rest
      in if elapsed \<ge> duration q then r
         else (sp # fst r, sparkStroke q timestamp sp # snd r))"

section \<open>Properties\<close>

subsection \<open>throttle\<close>

lemma throttle_calls_subseq: "subseq (throttle_calls limit lastCall evs) evs"
  by (induction evs arbitrary: lastCall) auto

lemma throttle_calls_spaced:
  "successively (\<lambda>a b. fst b - fst a \<ge> limit) ((lastCall, arg) # throttle_calls limit lastCall evs)"
  by (induction evs arbitrary: lastCall arg) auto

lemma throttle_fold:
  "foldl (\<lambda>st ev. throttle_step func limit ev st) (lastCall, s) evs =
     (let cs = throttle_calls limit lastCall evs in
      (if cs = [] then lastCall else fst (last cs), foldl (\<lambda>s e. func (snd e) s) s cs))"
  by (induction evs arbitrary: lastCall s) (auto simp: throttle_step_def Let_def)

text \<open>
  Claim C7. For every sequence of pointer-move events, the throttled handler hands the
  events to the underlying handler at most once per interval: what the closure computes is
  the underlying handler applied to the admitted events only, the admitted events are a
  subsequence of the events that arrived (an event inside the interval is dropped, none is
  kept for later), and each admitted event comes at least the limit after the one before
  it (the first at least the limit after the initial \<^verbatim>\<open>lastCall = 0\<close>). For the grid the
  limit is 50 ms.
\<close>

theorem throttle_min_interval:
  "throttle func limit evs s =
     (let cs = throttle_calls limit 0 evs in
      (if cs = [] then 0 else fst (last cs), foldl (\<lambda>s e. func (snd e) s) s cs))
   \<and> subseq (throttle_calls limit 0 evs) evs
   \<and> successively (\<lambda>a c. fst c - fst a \<ge> limit) ((0, arg) # throttle_calls limit 0 evs)
   \<and> successively (\<lambda>a c. fst c - fst a \<ge> 50)
        ((0, arg) # throttle_calls throttledMove_limit 0 evs)"
  unfolding throttle_def throttledMove_limit_def
  using throttle_fold[of func limit 0 s evs] throttle_calls_subseq[of limit 0 evs]
    throttle_calls_spaced[of limit 0 arg evs] throttle_calls_spaced[of 50 0 arg evs]
  by simp

text \<open>Five events at 10, 60, 100, 110 and 160 ms: the first and the third are dropped.\<close>

lemma throttle_calls_example:
  "throttle_calls throttledMove_limit 0 [(10, a), (60, c), (100, d), (110, e), (160, f)] =
     [(60, c), (110, e), (160, f)]"
  by (simp add: throttledMove_limit_def)

subsection \<open>hexToRgb\<close>

lemma isHexDigit_not_hash: "isHexDigit c \<Longrightarrow> c \<noteq> CHR ''#''"
  by (auto simp: isHexDigit_def)

text \<open>The match fails exactly on the strings outside the pattern's language.\<close>

lemma hexMatch_None_iff: "hexMatch hex = None \<longleftrightarrow> \<not> hexColorPattern hex"
proof
  assume n: "hexMatch hex = None"
  show "\<not> hexColorPattern hex"
  proof
    assume "hexColorPattern hex"
    then obtain ds where ds: "length ds = 6" "list_all isHexDigit ds"
      "hex = ds \<or> hex = CHR ''#'' # ds"
      by (auto simp: hexColorPattern_def)
    from ds(1) obtain d ds' where dd: "ds = d # ds'" by (cases ds) auto
    with ds(2) have "d \<noteq> CHR ''#''" by (simp add: isHexDigit_not_hash)
    with ds dd have "hexMatch hex \<noteq> None"
      by (auto simp: hexMatch_def)
    with n show False by simp
  qed
next
  assume p: "\<not> hexColorPattern hex"
  show "hexMatch hex = None"
  proof (rule ccontr)
    assume "hexMatch hex \<noteq> None"
    then have body: "length (if hex \<noteq> [] \<and> hd hex = CHR ''#'' then tl hex else hex) = 6"
       "list_all isHexDigit (if hex \<noteq> [] \<and> hd hex = CHR ''#'' then tl hex else hex)"
      by (auto simp: hexMatch_def Let_def split: if_splits)
    have "hexColorPattern hex"
    proof (cases "hex \<noteq> [] \<and> hd hex = CHR ''#''")
      case True
      then have "hex = CHR ''#'' # tl hex" by (cases hex) auto
      with body True show ?thesis
        unfolding hexColorPattern_def by (intro exI[of _ "tl hex"]) auto
    next
      case False
      with body show ?thesis
        unfolding hexColorPattern_def by (intro exI[of _ hex]) auto
    qed
    with p show False by simp
  qed
qed

lemma hexToRgb_None:
  "hexMatch hex = None \<Longrightarrow> hexToRgb hex = \<lparr>rgb_r = 0, rgb_g = 0, rgb_b = 0\<rparr>"
  by (simp add: hexToRgb_def)

lemma hexToRgb_digits:
  assumes "list_all isHexDigit [d1, d2, d3, d4, d5, d6]"
  shows "hexToRgb [d1, d2, d3, d4, d5, d6] =
          \<lparr>rgb_r = 16 * hexDigitValue d1 + hexDigitValue d2,
           rgb_g = 16 * hexDigitValue d3 + hexDigitValue d4,
           rgb_b = 16 * hexDigitValue d5 + hexDigitValue d6\<rparr>"
   and "hexToRgb (CHR ''#'' # [d1, d2, d3, d4, d5, d6]) =
          \<lparr>rgb_r = 16 * hexDigitValue d1 + hexDigitValue d2,
           rgb_g = 16 * hexDigitValue d3 + hexDigitValue d4,
           rgb_b = 16 * hexDigitValue d5 + hexDigitValue d6\<rparr>"
  using assms isHexDigit_not_hash[of d1]
  by (auto simp: hexToRgb_def hexMatch_def parseInt16_def)

lemma hexDigitValue_table:
  "map hexDigitValue ''0123456789abcdefABCDEF'' =
     [0, 1, 2, 3, 4, 5, 6, 7, 8, 9, 10, 11, 12, 13, 14, 15, 10, 11, 12, 13, 14, 15]"
  by (simp add: hexDigitValue_def)

lemma hexDigitValue_range: "isHexDigit c \<Longrightarrow> 0 \<le> hexDigitValue c \<and> hexDigitValue c \<le> 15"
  by (auto simp: isHexDigit_def hexDigitValue_def)

lemma not_pattern_fff: "\<not> hexColorPattern ''#fff''"
  by (simp add: hexMatch_None_iff[symmetric] hexMatch_def)

text \<open>
  Claim C8. For every string that fails the hex-colour pattern, \<^verbatim>\<open>hexToRgb\<close> returns
  \<^verbatim>\<open>{r: 0, g: 0, b: 0}\<close> (the model has no other outcome: nothing is raised); for every
  string that matches, six hexadecimal digits with or without a leading \<^verbatim>\<open>#\<close>, it
  returns the three channels decoded in base 16, each pair of digits as
  \<open>16 * high + low\<close>, upper and lower case digits having the same values.
\<close>

theorem hexToRgb_fallback_and_decode:
  "(\<not> hexColorPattern hex \<longrightarrow> hexToRgb hex = \<lparr>rgb_r = 0, rgb_g = 0, rgb_b = 0\<rparr>)
   \<and> (list_all isHexDigit [d1, d2, d3, d4, d5, d6] \<longrightarrow>
        hexToRgb [d1, d2, d3, d4, d5, d6] =
          \<lparr>rgb_r = 16 * hexDigitValue d1 + hexDigitValue d2,
           rgb_g = 16 * hexDigitValue d3 + hexDigitValue d4,
           rgb_b = 16 * hexDigitValue d5 + hexDigitValue d6\<rparr>
        \<and> hexToRgb (CHR ''#'' # [d1, d2, d3, d4, d5, d6]) = hexToRgb [d1, d2, d3, d4, d5, d6])
   \<and> map hexDigitValue ''0123456789abcdefABCDEF'' =
        [0, 1, 2, 3, 4, 5, 6, 7, 8, 9, 10, 11, 12, 13, 14, 15, 10, 11, 12, 13, 14, 15]"
  using hexToRgb_None[of hex] hexMatch_None_iff[of hex] hexToRgb_digits[of d1 d2 d3 d4 d5 d6]
    hexDigitValue_table
  by auto

text \<open>
  The three-digit shorthand \<^verbatim>\<open>#fff\<close> is outside the pattern and gives black; the active
  colour of the page, \<^verbatim>\<open>#FF8C00\<close>, is decoded to (255, 140, 0).
\<close>

theorem hexToRgb_fallback_and_decode_witness:
  "\<not> hexColorPattern ''#fff'' \<and> hexToRgb ''#fff'' = \<lparr>rgb_r = 0, rgb_g = 0, rgb_b = 0\<rparr>
   \<and> list_all isHexDigit ''FF8C00''
   \<and> hexToRgb ''FF8C00'' = \<lparr>rgb_r = 255, rgb_g = 140, rgb_b = 0\<rparr>
   \<and> hexToRgb ''#FF8C00'' = \<lparr>rgb_r = 255, rgb_g = 140, rgb_b = 0\<rparr>"
proof -
  have d: "list_all isHexDigit ''FF8C00''"
    by (simp add: isHexDigit_def)
  have v: "hexDigitValue CHR ''F'' = 15" "hexDigitValue CHR ''8'' = 8"
    "hexDigitValue CHR ''C'' = 12" "hexDigitValue CHR ''0'' = 0"
    by (simp_all add: hexDigitValue_def)
  from hexToRgb_fallback_and_decode[of "''#fff''" "CHR ''F''" "CHR ''F''" "CHR ''8''"
      "CHR ''C''" "CHR ''0''" "CHR ''0''"] not_pattern_fff d v
  show ?thesis by simp
qed



subsection \<open>Double-precision arithmetic\<close>

text \<open>
  Rounding to an integer stays between the floor and the ceiling, and keeps an integer.
\<close>

lemma roundTiesToEven_of_int: "roundTiesToEven (of_int k) = k"
  by (simp add: roundTiesToEven_def)

lemma roundTiesToEven_ge_floor: "\<lfloor>x\<rfloor> \<le> roundTiesToEven x"
  by (simp add: roundTiesToEven_def Let_def)

lemma roundTiesToEven_le_ceiling: "roundTiesToEven x \<le> \<lceil>x\<rceil>"
proof (cases "x = of_int \<lfloor>x\<rfloor>")
  case True
  then have "roundTiesToEven x = \<lfloor>x\<rfloor>"
    by (metis roundTiesToEven_of_int)
  then show ?thesis by (simp add: floor_le_ceiling)
next
  case False
  then have "\<lceil>x\<rceil> = \<lfloor>x\<rfloor> + 1"
    by (metis ceiling_altdef)
  then show ?thesis by (simp add: roundTiesToEven_def Let_def)
qed

lemma roundTiesToEven_ge:
  assumes "of_int m \<le> x"
  shows "m \<le> roundTiesToEven x"
proof -
  from assms have "m \<le> \<lfloor>x\<rfloor>" by (simp add: le_floor_iff)
  with roundTiesToEven_ge_floor[of x] show ?thesis by linarith
qed

lemma roundTiesToEven_le:
  assumes "x \<le> of_int m"
  shows "roundTiesToEven x \<le> m"
proof -
  from assms have "\<lceil>x\<rceil> \<le> m" by (simp add: ceiling_le_iff)
  with roundTiesToEven_le_ceiling[of x] show ?thesis by linarith
qed

text \<open>
  \<open>ilog2\<close> is the binary exponent: \<open>2^e \<le> x < 2^(e + 1)\<close> holds for \<open>e = ilog2 x\<close> and for
  no other \<open>e\<close>.
\<close>

lemma ilog2_bounds:
  assumes "0 < x"
  shows "2 powi ilog2 x \<le> x" and "x < 2 powi (ilog2 x + 1)"
proof -
  have "2 powi ilog2 x \<le> x \<and> x < 2 powi (ilog2 x + 1)"
  proof (cases "1 \<le> x")
    case True
    define n where "n = nat \<lfloor>x\<rfloor>"
    define L where "L = floorlog 2 n"
    from True have n1: "1 \<le> n" unfolding n_def by (simp add: le_nat_iff)
    then have n0: "0 < n" by simp
    from floorlog_bounds[OF n0, of 2] have b: "2 ^ (L - 1) \<le> n" "n < 2 ^ L"
      unfolding L_def by simp_all
    from b(2) n0 have L1: "1 \<le> L" by (cases L) auto
    have e: "ilog2 x = int L - 1" using True by (simp add: ilog2_def L_def n_def)
    have nx: "real n \<le> x" unfolding n_def using True by simp
    have xn: "x < real n + 1" unfolding n_def using True by simp
    have "2 powi (int L - 1) = (2::real) ^ (L - 1)"
      using L1 by (simp add: power_int_def nat_diff_distrib')
    also have "\<dots> = real (2 ^ (L - 1))" by simp
    also have "\<dots> \<le> real n" using b(1) by (simp only: of_nat_le_iff)
    finally have lo: "2 powi (int L - 1) \<le> x" using nx by linarith
    from b(2) have "n + 1 \<le> 2 ^ L" by simp
    then have "real (n + 1) \<le> real (2 ^ L)" by (simp only: of_nat_le_iff)
    then have "real n + 1 \<le> 2 ^ L" by simp
    with xn have "x < 2 ^ L" by linarith
    then have hi: "x < 2 powi (int L - 1 + 1)" by simp
    from lo hi e show ?thesis by simp
  next
    case False
    define m where "m = nat (\<lceil>1 / x\<rceil> - 1)"
    define L where "L = floorlog 2 m"
    from False assms have y1: "1 < 1 / x" by simp
    then have c2: "2 \<le> \<lceil>1 / x\<rceil>" by linarith
    then have m0: "0 < m" unfolding m_def by simp
    from c2 have "0 \<le> \<lceil>1 / x\<rceil> - 1" by linarith
    then have mc: "int m = \<lceil>1 / x\<rceil> - 1" unfolding m_def by (rule nat_0_le)
    from floorlog_bounds[OF m0, of 2] have b: "2 ^ (L - 1) \<le> m" "m < 2 ^ L"
      unfolding L_def by simp_all
    from b(2) m0 have L1: "1 \<le> L" by (cases L) auto
    have e: "ilog2 x = - int L"
      unfolding ilog2_def L_def m_def using False by (rule if_not_P)
    have "real m < 1 / x"
    proof -
      have "real_of_int (\<lceil>1 / x\<rceil> - 1) < 1 / x" by linarith
      then show ?thesis using mc by (metis of_int_of_nat_eq)
    qed
    moreover have "(2::real) ^ (L - 1) \<le> real m"
      using of_nat_mono[OF b(1), where 'a = real] by simp
    ultimately have "2 ^ (L - 1) < 1 / x" by linarith
    then have "x * 2 ^ (L - 1) < 1" using assms by (simp add: field_simps)
    then have "x < 1 / 2 ^ (L - 1)" by (simp add: field_simps)
    also have "1 / 2 ^ (L - 1) = (2::real) powi (- int L + 1)"
      using L1 by (simp add: power_int_def nat_diff_distrib' field_simps)
    finally have hi: "x < 2 powi (- int L + 1)" .
    from b(2) have "m + 1 \<le> 2 ^ L" by simp
    then have "int (m + 1) \<le> int (2 ^ L)" by (simp only: of_nat_le_iff)
    then have "\<lceil>1 / x\<rceil> \<le> 2 ^ L" using mc by simp
    then have "1 / x \<le> 2 ^ L" by (simp add: ceiling_le_iff)
    then have "1 \<le> x * 2 ^ L" using assms by (simp add: field_simps)
    then have "1 / 2 ^ L \<le> x" by (simp add: field_simps)
    moreover have "1 / 2 ^ L = (2::real) powi (- int L)"
      by (simp add: power_int_def field_simps)
    ultimately have lo: "2 powi (- int L) \<le> x" by simp
    from lo hi e show ?thesis by simp
  qed
  then show "2 powi ilog2 x \<le> x" and "x < 2 powi (ilog2 x + 1)" by simp_all
qed

lemma ilog2_eqI:
  assumes "2 powi e \<le> x" "x < 2 powi (e + 1)"
  shows "ilog2 x = e"
proof -
  have "(0::real) < 2 powi e" by simp
  with assms(1) have x0: "0 < x" by linarith
  note b = ilog2_bounds[OF x0]
  have "(2::real) powi e < 2 powi (ilog2 x + 1)" using assms(1) b(2) by linarith
  then have "e < ilog2 x + 1"
    using power_int_increasing[of "ilog2 x + 1" e "2::real"] by (cases "e < ilog2 x + 1") auto
  moreover have "(2::real) powi ilog2 x < 2 powi (e + 1)" using assms(2) b(1) by linarith
  then have "ilog2 x < e + 1"
    using power_int_increasing[of "e + 1" "ilog2 x" "2::real"] by (cases "ilog2 x < e + 1") auto
  ultimately show ?thesis by simp
qed


text \<open>
  With the exponent known, \<open>toDouble\<close> is one rounding of the mantissa. Rounding keeps
  the sign, and a number from the smallest normal double on stays positive.
\<close>

lemma toDouble_eval:
  assumes "2 powi e \<le> \<bar>x\<bar>" "\<bar>x\<bar> < 2 powi (e + 1)" "- 1022 \<le> e"
  shows "toDouble x = of_int (roundTiesToEven (x / 2 powi (e - 52))) * 2 powi (e - 52)"
proof -
  have "(0::real) < 2 powi e" by simp
  with assms(1) have "0 < \<bar>x\<bar>" by linarith
  then have x0: "x \<noteq> 0" by simp
  have "ilog2 \<bar>x\<bar> = e" using assms(1,2) by (rule ilog2_eqI)
  with assms(3) have "max (ilog2 \<bar>x\<bar>) (- 1022) = e" by simp
  with x0 show ?thesis by (simp add: toDouble_def Let_def)
qed



text \<open>A dyadic number with a mantissa below \<open>2^53\<close> is a double: rounding keeps it.\<close>

lemma toDouble_dyadic:
  assumes "\<bar>k\<bar> < 2 ^ 53" "- 1074 \<le> j"
  shows "toDouble (of_int k * 2 powi j) = of_int k * 2 powi j"
proof (cases "k = 0")
  case True
  then show ?thesis by (simp add: toDouble_def)
next
  case False
  define x :: real where "x = of_int k * 2 powi j"
  have x0: "x \<noteq> 0" unfolding x_def using False by simp
  then have ax: "0 < \<bar>x\<bar>" by simp
  define e where "e = max (ilog2 \<bar>x\<bar>) (- 1022)"
  have "\<bar>x\<bar> = of_int \<bar>k\<bar> * 2 powi j" unfolding x_def by (simp add: abs_mult)
  also have "\<dots> < 2 powi 53 * 2 powi j"
  proof -
    have "real_of_int \<bar>k\<bar> < real_of_int (2 ^ 53)" using assms(1) by (simp only: of_int_less_iff)
    then have "real_of_int \<bar>k\<bar> < 2 powi 53" by simp
    moreover have "(0::real) < 2 powi j" by simp
    ultimately show ?thesis by (rule mult_strict_right_mono)
  qed
  also have "\<dots> = (2::real) powi (j + 53)"
    using power_int_add[of "2::real" 53 j] by (simp only: add.commute[of j 53]) simp
  finally have "\<bar>x\<bar> < 2 powi (j + 53)" .
  with ilog2_bounds(1)[OF ax] have "(2::real) powi ilog2 \<bar>x\<bar> < 2 powi (j + 53)" by linarith
  then have "ilog2 \<bar>x\<bar> < j + 53"
    using power_int_increasing[of "j + 53" "ilog2 \<bar>x\<bar>" "2::real"]
    by (cases "ilog2 \<bar>x\<bar> < j + 53") auto
  with assms(2) have e_le: "e \<le> j + 52" unfolding e_def by simp
  define s where "s = nat (j + 52 - e)"
  have s: "int s = j + 52 - e" unfolding s_def using e_le by simp
  have "x / 2 powi (e - 52) = of_int k * (2 powi j / 2 powi (e - 52))" unfolding x_def by simp
  also have "2 powi j / 2 powi (e - 52) = (2::real) powi (int s)"
  proof -
    have "int s = j - (e - 52)" using s by simp
    then show ?thesis using power_int_diff[of "2::real" j "e - 52"] by simp
  qed
  also have "of_int k * (2::real) powi (int s) = of_int (k * 2 ^ s)" by simp
  finally have z: "x / 2 powi (e - 52) = of_int (k * 2 ^ s)" .
  have "toDouble x = of_int (roundTiesToEven (x / 2 powi (e - 52))) * 2 powi (e - 52)"
    using x0 by (simp add: toDouble_def Let_def e_def)
  also have "\<dots> = of_int (k * 2 ^ s) * 2 powi (e - 52)"
    unfolding z roundTiesToEven_of_int ..
  also have "\<dots> = of_int k * ((2::real) powi (int s) * 2 powi (e - 52))" by simp
  also have "(2::real) powi (int s) * 2 powi (e - 52) = 2 powi j"
  proof -
    have "j = int s + (e - 52)" using s by simp
    then show ?thesis using power_int_add[of "2::real" "int s" "e - 52"] by simp
  qed
  finally show ?thesis unfolding x_def .
qed

lemma toDouble_int: "\<bar>k\<bar> < 2 ^ 53 \<Longrightarrow> toDouble (of_int k) = of_int k"
  using toDouble_dyadic[of k 0] by simp

lemma toDouble_half: "\<bar>k\<bar> < 2 ^ 53 \<Longrightarrow> toDouble (of_int k / 2) = of_int k / 2"
  using toDouble_dyadic[of k "- 1"] by simp

text \<open>
  For natural numbers below \<open>2^25\<close> the rounded quotient has the floor of the exact
  quotient: the exact quotient is at least \<open>1 / b\<close> below the next integer, far more than
  the rounding can move it.
\<close>

lemma floor_toDouble_divide:
  fixes a b :: nat
  assumes "0 < b" "a < 2 ^ 25" "b < 2 ^ 25"
  shows "\<lfloor>toDouble (real a / real b)\<rfloor> = int (a div b)"
proof (cases "a = 0")
  case True
  then show ?thesis by (simp add: toDouble_def)
next
  case False
  define x where "x = real a / real b"
  define q where "q = a div b"
  have x0: "0 < x" unfolding x_def using False assms(1) by simp
  have ax: "\<bar>x\<bar> = x" using x0 by simp
  define e where "e = ilog2 x"
  note eb = ilog2_bounds[OF x0, folded e_def]
  have rb: "real b < 2 ^ 25" using assms(3) by (metis of_nat_less_numeral_power_cancel_iff)
  have ra: "real a < 2 ^ 25" using assms(2) by (metis of_nat_less_numeral_power_cancel_iff)
  have b1: "1 \<le> real b" using assms(1) by simp
  have a1: "1 \<le> real a" using False by simp
  have x_lo: "1 / 2 ^ 25 < x"
  proof -
    have "1 / 2 ^ 25 < 1 / real b" using rb b1 by (simp add: field_simps)
    also have "\<dots> \<le> x" unfolding x_def using a1 b1 by (simp add: divide_right_mono)
    finally show ?thesis .
  qed
  have x_hi: "x < 2 ^ 25"
  proof -
    have "x \<le> real a" unfolding x_def using b1 a1 by (simp add: field_simps mult_le_cancel_left1)
    then show ?thesis using ra by linarith
  qed
  have "(2::real) powi (- 25) < 2 powi (e + 1)"
    using x_lo eb(2) by (simp add: power_int_minus_divide)
  then have "- 25 < e + 1"
    using power_int_increasing[of "e + 1" "- 25" "2::real"] by (cases "- 25 < e + 1") auto
  then have e_lo: "- 1022 \<le> e" by simp
  have "(2::real) powi e < 2 powi 25" using x_hi eb(1) by simp
  then have e_hi: "e < 25"
    using power_int_increasing[of 25 e "2::real"] by (cases "e < 25") auto
  define s where "s = nat (52 - e)"
  have s: "int s = 52 - e" unfolding s_def using e_hi by simp
  have s28: "28 \<le> s" unfolding s_def using e_hi by simp
  have ulp: "(2::real) powi (e - 52) = 1 / 2 ^ s"
  proof -
    have "e - 52 = - int s" using s by simp
    then show ?thesis by (simp add: power_int_minus_divide)
  qed
  from toDouble_eval[of e x] eb e_lo ax
  have td: "toDouble x = of_int (roundTiesToEven (x * 2 ^ s)) / 2 ^ s"
    by (simp add: ulp)
  have qx: "real q \<le> x"
  proof -
    have "q * b \<le> a" unfolding q_def by simp
    then have "real (q * b) \<le> real a" by (simp only: of_nat_le_iff)
    then show ?thesis unfolding x_def using b1 by (simp add: field_simps)
  qed
  have xq: "x + 1 / real b \<le> real q + 1"
  proof -
    have "a = q * b + a mod b" unfolding q_def by simp
    moreover have "a mod b < b" using assms(1) by simp
    ultimately have "a + 1 \<le> q * b + b" by linarith
    then have "a + 1 \<le> (q + 1) * b" by simp
    then have "real (a + 1) \<le> real ((q + 1) * b)" by (simp only: of_nat_le_iff)
    then have "real a + 1 \<le> (real q + 1) * real b" by (simp add: algebra_simps)
    then have "(real a + 1) / real b \<le> real q + 1" using b1 by (simp add: field_simps)
    then show ?thesis unfolding x_def by (simp add: add_divide_distrib)
  qed
  have p2: "real b \<le> 2 ^ s"
  proof -
    have "(2::real) ^ 28 \<le> 2 ^ s" using s28 by (intro power_increasing) auto
    moreover have "(2::real) ^ 25 \<le> 2 ^ 28" by simp
    ultimately show ?thesis using rb by linarith
  qed
  have lo: "int q * 2 ^ s \<le> roundTiesToEven (x * 2 ^ s)"
  proof (rule roundTiesToEven_ge)
    show "real_of_int (int q * 2 ^ s) \<le> x * 2 ^ s" using qx by (simp add: mult_right_mono)
  qed
  have hi: "roundTiesToEven (x * 2 ^ s) \<le> (int q + 1) * 2 ^ s - 1"
  proof (rule roundTiesToEven_le)
    have "1 \<le> 2 ^ s / real b" using p2 b1 by (simp add: field_simps)
    moreover have "(x + 1 / real b) * 2 ^ s \<le> (real q + 1) * 2 ^ s"
      using xq by (intro mult_right_mono) auto
    ultimately have "x * 2 ^ s + 1 \<le> (real q + 1) * 2 ^ s"
      by (simp add: algebra_simps)
    then show "x * 2 ^ s \<le> real_of_int ((int q + 1) * 2 ^ s - 1)" by simp
  qed
  have p0: "(0::real) < 2 ^ s" by simp
  have "real q \<le> toDouble x"
  proof -
    from lo have "real_of_int (int q * 2 ^ s) \<le> of_int (roundTiesToEven (x * 2 ^ s))"
      by (simp only: of_int_le_iff)
    then have "real q * 2 ^ s \<le> of_int (roundTiesToEven (x * 2 ^ s))" by simp
    then show ?thesis unfolding td using p0 by (simp add: field_simps)
  qed
  moreover have "toDouble x < real q + 1"
  proof -
    from hi have "real_of_int (roundTiesToEven (x * 2 ^ s)) \<le> of_int ((int q + 1) * 2 ^ s - 1)"
      by (simp only: of_int_le_iff)
    then have "of_int (roundTiesToEven (x * 2 ^ s)) < (real q + 1) * 2 ^ s" by simp
    then show ?thesis unfolding td using p0 by (simp add: field_simps)
  qed
  ultimately have "\<lfloor>toDouble x\<rfloor> = int q"
    by (simp add: floor_eq_iff)
  then show ?thesis unfolding x_def q_def .
qed

subsection \<open>buildGrid\<close>





text \<open>Integers and halves of integers up to \<open>2^28\<close> are doubles.\<close>

lemma toDouble_int_small:
  assumes "\<bar>k\<bar> \<le> 268435456"
  shows "toDouble (of_int k) = of_int k" and "toDouble (of_int k / 2) = of_int k / 2"
proof -
  have "(268435456::int) < 2 ^ 53" by simp
  with assms have "\<bar>k\<bar> < 2 ^ 53" by linarith
  then show "toDouble (of_int k) = of_int k" and "toDouble (of_int k / 2) = of_int k / 2"
    by (simp_all add: toDouble_int toDouble_half)
qed

text \<open>
  One axis of the grid for natural sizes below \<open>2^24\<close>: every intermediate value is an
  integer or half an integer, so no operation rounds, and the floor is that of the exact
  quotient.
\<close>

lemma axis_count_exact:
  fixes w d g :: nat
  assumes "0 < d + g" "w < 2 ^ 24" "d < 2 ^ 24" "g < 2 ^ 24"
  shows "\<lfloor>toDouble (toDouble (real w + real g) / toDouble (real d + real g))\<rfloor> =
           int ((w + g) div (d + g))"
    and "\<lfloor>(real w + real g) / (real d + real g)\<rfloor> = int ((w + g) div (d + g))"
proof -
  have a: "w + g < 2 ^ 25" and c: "d + g < 2 ^ 25" using assms by simp_all
  have ka: "\<bar>int (w + g)\<bar> \<le> 268435456" using a by simp
  have kc: "\<bar>int (d + g)\<bar> \<le> 268435456" using c by simp
  have ta: "toDouble (real w + real g) = real (w + g)"
    using toDouble_int_small(1)[OF ka] by simp
  have tc: "toDouble (real d + real g) = real (d + g)"
    using toDouble_int_small(1)[OF kc] by simp
  show "\<lfloor>toDouble (toDouble (real w + real g) / toDouble (real d + real g))\<rfloor> =
           int ((w + g) div (d + g))"
    unfolding ta tc using assms(1) a c by (rule floor_toDouble_divide)
  have "\<lfloor>real (w + g) / real (d + g)\<rfloor> = int ((w + g) div (d + g))"
    by (rule floor_divide_of_nat_eq)
  then show "\<lfloor>(real w + real g) / (real d + real g)\<rfloor> = int ((w + g) div (d + g))"
    by (simp only: of_nat_add)
qed

lemma axis_coord_exact:
  fixes w d g x :: nat
  assumes "0 < d + g" "w < 2 ^ 24" "d < 2 ^ 24" "g < 2 ^ 24"
    and "x < (w + g) div (d + g)"
  defines "n \<equiv> int ((w + g) div (d + g))"
  defines "cell \<equiv> toDouble (real d + real g)"
  shows "toDouble (toDouble (toDouble (toDouble (real w -
             toDouble (toDouble (cell * of_int n) - real g)) / 2) + toDouble (real d / 2))
           + toDouble (real x * cell))
         = (real w - ((real d + real g) * of_int n - real g)) / 2 + real d / 2
             + real x * (real d + real g)"
proof -
  define q where "q = (w + g) div (d + g)"
  have n: "n = int q" unfolding n_def q_def ..
  have qc: "q * (d + g) \<le> w + g" unfolding q_def by simp
  have "Suc x \<le> q" using assms(5) unfolding q_def by simp
  then have "Suc x * (d + g) \<le> q * (d + g)" by (rule mult_le_mono1)
  then have xc: "x * (d + g) \<le> w + g" using qc by simp
  define G1 where "G1 = int (q * (d + g))"
  define G where "G = G1 - int g"
  define E where "E = int w - G"
  define S where "S = E + int d"
  define P where "P = int (x * (d + g))"
  have B: "int w < 16777216" "int d < 16777216" "int g < 16777216"
    using assms(2,3,4) by simp_all
  have N: "0 \<le> int w" "0 \<le> int d" "0 \<le> int g" "0 \<le> G1" "0 \<le> P"
    unfolding G1_def P_def by simp_all
  have QC: "G1 \<le> int w + int g" unfolding G1_def using qc by (metis of_nat_le_iff of_nat_add)
  have XC: "P \<le> int w + int g" unfolding P_def using xc by (metis of_nat_le_iff of_nat_add)
  have kc: "\<bar>int (d + g)\<bar> \<le> 268435456" using B by simp
  have cell: "cell = real (d + g)"
    unfolding cell_def using toDouble_int_small(1)[OF kc] by simp
  have bG1: "\<bar>G1\<bar> \<le> 268435456" using B N QC by linarith
  have bG: "\<bar>G\<bar> \<le> 268435456" unfolding G_def using B N QC by linarith
  have bE: "\<bar>E\<bar> \<le> 268435456" unfolding E_def G_def using B N QC by linarith
  have bd: "\<bar>int d\<bar> \<le> 268435456" using B N by linarith
  have bS: "\<bar>S\<bar> \<le> 268435456" unfolding S_def E_def G_def using B N QC by linarith
  have bP: "\<bar>P\<bar> \<le> 268435456" using B N XC by linarith
  have bT: "\<bar>S + 2 * P\<bar> \<le> 268435456"
    unfolding S_def E_def G_def using B N QC XC by linarith
  have t1: "toDouble (cell * of_int n) = of_int G1"
  proof -
    have eq: "cell * of_int n = of_int G1" unfolding cell n G1_def by (simp add: mult.commute)
    show ?thesis unfolding eq by (rule toDouble_int_small(1)[OF bG1])
  qed
  have t2: "toDouble (of_int G1 - real g) = of_int G"
  proof -
    have eq: "of_int G1 - real g = of_int G" unfolding G_def by simp
    show ?thesis unfolding eq by (rule toDouble_int_small(1)[OF bG])
  qed
  have t3: "toDouble (real w - of_int G) = of_int E"
  proof -
    have eq: "real w - of_int G = of_int E" unfolding E_def by simp
    show ?thesis unfolding eq by (rule toDouble_int_small(1)[OF bE])
  qed
  have t4: "toDouble (of_int E / 2) = of_int E / 2"
    by (rule toDouble_int_small(2)[OF bE])
  have t5: "toDouble (real d / 2) = real d / 2"
  proof -
    have eq: "real d = of_int (int d)" by simp
    show ?thesis unfolding eq by (rule toDouble_int_small(2)[OF bd])
  qed
  have t6: "toDouble (of_int E / 2 + real d / 2) = of_int S / 2"
  proof -
    have eq: "of_int E / 2 + real d / 2 = (of_int S / 2 :: real)"
      unfolding S_def by (simp add: add_divide_distrib)
    show ?thesis unfolding eq by (rule toDouble_int_small(2)[OF bS])
  qed
  have t7: "toDouble (real x * cell) = of_int P"
  proof -
    have eq: "real x * cell = of_int P" unfolding cell P_def by simp
    show ?thesis unfolding eq by (rule toDouble_int_small(1)[OF bP])
  qed
  have t8: "toDouble (of_int S / 2 + of_int P) = of_int (S + 2 * P) / 2"
  proof -
    have eq: "of_int S / 2 + of_int P = (of_int (S + 2 * P) / 2 :: real)"
      by (simp add: add_divide_distrib)
    show ?thesis unfolding eq by (rule toDouble_int_small(2)[OF bT])
  qed
  have "toDouble (toDouble (toDouble (toDouble (real w -
             toDouble (toDouble (cell * of_int n) - real g)) / 2) + toDouble (real d / 2))
           + toDouble (real x * cell)) = of_int (S + 2 * P) / 2"
    by (simp only: t1 t2 t3 t4 t5 t6 t7 t8)
  also have "\<dots> = (real w - ((real d + real g) * of_int n - real g)) / 2 + real d / 2
             + real x * (real d + real g)"
    unfolding S_def E_def G_def G1_def P_def n
    by (simp add: field_simps)
  finally show ?thesis .
qed


text \<open>
  The grid as two axes: \<open>gridDots\<close>, and so \<^verbatim>\<open>buildGrid\<close> with a wrapper and a canvas,
  is the row-major product of the coordinates of the height axis and of the width axis.
\<close>

lemma gridDots_axes:
  "gridDots p width height =
     concat (map (\<lambda>y. map (\<lambda>x.
        \<lparr>cx = axisCoord p width x, cy = axisCoord p height y,
         xOffset = 0, yOffset = 0, inertiaApplied = False\<rparr>)
        [0..<nat (axisCount p width)]) [0..<nat (axisCount p height)])"
  by (simp add: gridDots_def axisCoord_def axisCount_def Let_def)

lemma buildGrid_axes:
  "buildGrid p (Some (width, height)) True old =
     concat (map (\<lambda>y. map (\<lambda>x.
        \<lparr>cx = axisCoord p width x, cy = axisCoord p height y,
         xOffset = 0, yOffset = 0, inertiaApplied = False\<rparr>)
        [0..<nat (axisCount p width)]) [0..<nat (axisCount p height)])"
  by (simp add: buildGrid_def gridDots_axes)




text \<open>For natural sizes below \<open>2^24\<close> an axis is what exact arithmetic gives.\<close>

lemma axisCount_natural:
  fixes s d g :: nat
  assumes "dotSize p = real d" "gap p = real g"
    and "0 < d + g" "s < 2 ^ 24" "d < 2 ^ 24" "g < 2 ^ 24"
  shows "axisCount p (real s) = \<lfloor>(real s + gap p) / (dotSize p + gap p)\<rfloor>"
    and "axisCount p (real s) = int ((s + g) div (d + g))"
  unfolding axisCount_def assms(1,2)
  using axis_count_exact[OF assms(3,4,5,6)] by simp_all

lemma axisCoord_natural:
  fixes s d g i :: nat
  assumes "dotSize p = real d" "gap p = real g"
    and "0 < d + g" "s < 2 ^ 24" "d < 2 ^ 24" "g < 2 ^ 24"
    and "i < nat (axisCount p (real s))"
  shows "axisCoord p (real s) i =
           (real s - ((dotSize p + gap p) * of_int (axisCount p (real s)) - gap p)) / 2
             + dotSize p / 2 + real i * (dotSize p + gap p)"
proof -
  note c = axisCount_natural(2)[OF assms(1,2,3,4,5,6)]
  from assms(7) have i: "i < (s + g) div (d + g)" unfolding c by simp
  show ?thesis
    unfolding axisCoord_def Let_def c assms(1,2)
    by (rule axis_coord_exact[OF assms(3,4,5,6) i])
qed

























lemma App_DotGrid_sizes: "dotSize App_DotGrid = real 2" "gap App_DotGrid = real 26"
  by (simp_all add: App_DotGrid_def DotGrid_defaults_def)

text \<open>
  Every dot of a rebuilt grid is at rest, and the example grid is the grid of the page's
  props in a wrapper of 28 by 28.
\<close>

lemma buildGrid_atRest:
  "list_all (\<lambda>d. atRest (d, [])) (buildGrid p (Some (width, height)) True old)"
  unfolding buildGrid_axes by (auto simp: list_all_iff atRest_def)

lemma buildGrid_example:
  "map (\<lambda>d. (d, [])) (buildGrid App_DotGrid (Some (28, 28)) True []) = dotsRef exampleGrid"
proof -
  have b: "(0::nat) < 2 + 26" "(28::nat) < 2 ^ 24" "(2::nat) < 2 ^ 24" "(26::nat) < 2 ^ 24"
    by simp_all
  have r: "(28::real) = real 28" by simp
  have c: "axisCount App_DotGrid 28 = 1"
    unfolding r axisCount_natural(2)[OF App_DotGrid_sizes b] by simp
  have "(0::nat) < nat (axisCount App_DotGrid (real 28))" using c unfolding r by simp
  from axisCoord_natural[OF App_DotGrid_sizes b this]
  have x: "axisCoord App_DotGrid 28 0 = 14"
    using c by (simp add: App_DotGrid_sizes)
  show ?thesis
    by (simp add: buildGrid_axes c x exampleGrid_def)
qed

subsection \<open>onMove: the pointer state\<close>

lemma hypot_scale: "hypot (a * k) (c * k) = \<bar>k\<bar> * hypot a c"
proof -
  have "a * k * (a * k) + c * k * (c * k) = k\<^sup>2 * (a * a + c * c)"
    by (simp add: power2_eq_square algebra_simps)
  then show ?thesis
    by (simp add: hypot_def real_sqrt_mult)
qed

lemma onMove_pointer_fields:
  "lastTime (onMove_pointer p now clientX clientY rectLeft rectTop pr) = now"
  "lastX (onMove_pointer p now clientX clientY rectLeft rectTop pr) = clientX"
  "lastY (onMove_pointer p now clientX clientY rectLeft rectTop pr) = clientY"
  "ptr_x (onMove_pointer p now clientX clientY rectLeft rectTop pr) = clientX - rectLeft"
  "ptr_y (onMove_pointer p now clientX clientY rectLeft rectTop pr) = clientY - rectTop"
  by (simp_all add: onMove_pointer_def Let_def)

text \<open>
  Claim C3. For every pointer-move sample (with a positive \<^verbatim>\<open>maxSpeed\<close> and a time
  delta other than zero), the stored speed never exceeds \<^verbatim>\<open>maxSpeed\<close>; it is the
  smaller of the raw magnitude \<open>hypot vx0 vy0\<close> and \<^verbatim>\<open>maxSpeed\<close>, and it is the magnitude
  of the stored velocity. When the raw magnitude exceeds \<^verbatim>\<open>maxSpeed\<close>, both components
  are multiplied by the same positive factor \<open>maxSpeed / speed\<close>; otherwise they are
  stored as they are. In both cases the stored velocity is a positive multiple of the raw
  one: its direction is unchanged.
\<close>

theorem onMove_speed_clamped:
  fixes p pr now clientX clientY rectLeft rectTop
  assumes "0 < maxSpeed p" and "lastTime pr = 0 \<or> now \<noteq> lastTime pr"
  defines "dt \<equiv> if lastTime pr \<noteq> 0 then now - lastTime pr else 16"
  defines "vx0 \<equiv> (clientX - lastX pr) / dt * 1000"
    and "vy0 \<equiv> (clientY - lastY pr) / dt * 1000"
  defines "pr' \<equiv> onMove_pointer p now clientX clientY rectLeft rectTop pr"
  shows "speed pr' \<le> maxSpeed p
    \<and> speed pr' = min (hypot vx0 vy0) (maxSpeed p)
    \<and> speed pr' = hypot (vx pr') (vy pr')
    \<and> (hypot vx0 vy0 > maxSpeed p \<longrightarrow>
         0 < maxSpeed p / hypot vx0 vy0
         \<and> vx pr' = vx0 * (maxSpeed p / hypot vx0 vy0)
         \<and> vy pr' = vy0 * (maxSpeed p / hypot vx0 vy0))
    \<and> (hypot vx0 vy0 \<le> maxSpeed p \<longrightarrow> vx pr' = vx0 \<and> vy pr' = vy0)
    \<and> (\<exists>k>0. vx pr' = k * vx0 \<and> vy pr' = k * vy0)"
proof (cases "hypot vx0 vy0 > maxSpeed p")
  case True
  let ?k = "maxSpeed p / hypot vx0 vy0"
  from True assms(1) have h0: "0 < hypot vx0 vy0" by simp
  with assms(1) have k0: "0 < ?k" by simp
  have v: "vx pr' = vx0 * ?k" "vy pr' = vy0 * ?k" "speed pr' = maxSpeed p"
    using True unfolding pr'_def vx0_def vy0_def dt_def
    by (simp_all add: onMove_pointer_def Let_def)
  have "hypot (vx pr') (vy pr') = \<bar>?k\<bar> * hypot vx0 vy0"
    unfolding v by (rule hypot_scale)
  also have "\<dots> = maxSpeed p" using k0 h0 assms(1) by simp
  finally have hs: "hypot (vx pr') (vy pr') = maxSpeed p" .
  have ex: "\<exists>k>0. vx pr' = k * vx0 \<and> vy pr' = k * vy0"
    using k0 v by (intro exI[of _ ?k]) (simp add: mult.commute)
  from True v hs k0 ex show ?thesis by simp
next
  case False
  then have le: "hypot vx0 vy0 \<le> maxSpeed p" by simp
  have v: "vx pr' = vx0" "vy pr' = vy0" "speed pr' = hypot vx0 vy0"
    using False unfolding pr'_def vx0_def vy0_def dt_def
    by (simp_all add: onMove_pointer_def Let_def)
  have ex: "\<exists>k>0. vx pr' = k * vx0 \<and> vy pr' = k * vy0"
    using v by (intro exI[of _ 1]) simp
  from le v ex show ?thesis by simp
qed


lemma hypot_6000_8000: "hypot 6000 8000 = 10000"
  unfolding hypot_def by (rule real_sqrt_unique) simp_all

text \<open>
  A sample 50 ms after the last one, 300 px right and 400 px down of it: the raw velocity
  (6000, 8000) has magnitude 10000, and is stored as (3000, 4000) with speed 5000.
\<close>

theorem onMove_speed_clamped_witness:
  "0 < maxSpeed App_DotGrid
   \<and> (lastTime (pointerRef_init\<lparr>lastTime := 100\<rparr>) = 0 \<or> 150 \<noteq> lastTime (pointerRef_init\<lparr>lastTime := 100\<rparr>))
   \<and> hypot ((300 - 0) / (150 - 100) * 1000) ((400 - 0) / (150 - 100) * 1000) = 10000
   \<and> speed (onMove_pointer App_DotGrid 150 300 400 0 0 (pointerRef_init\<lparr>lastTime := 100\<rparr>)) = 5000
   \<and> vx (onMove_pointer App_DotGrid 150 300 400 0 0 (pointerRef_init\<lparr>lastTime := 100\<rparr>)) = 3000
   \<and> vy (onMove_pointer App_DotGrid 150 300 400 0 0 (pointerRef_init\<lparr>lastTime := 100\<rparr>)) = 4000"
proof -
  have m: "maxSpeed App_DotGrid = 5000"
    by (simp add: App_DotGrid_def DotGrid_defaults_def)
  have h1: "0 < maxSpeed App_DotGrid" by (simp add: m)
  have h2: "lastTime (pointerRef_init\<lparr>lastTime := 100\<rparr>) = 0
            \<or> 150 \<noteq> lastTime (pointerRef_init\<lparr>lastTime := 100\<rparr>)"
    by simp
  from onMove_speed_clamped[OF h1 h2, of 300 400 0 0] hypot_6000_8000 m
  show ?thesis by (simp add: pointerRef_init_def)
qed


lemma first_sample_raw:
  "hypot ((X - 0) / 16 * 1000) ((Y - 0) / 16 * 1000) = hypot X Y / 16 * 1000"
proof -
  have e: "(X - 0) / 16 * 1000 = X * (1000 / 16)" "(Y - 0) / 16 * 1000 = Y * (1000 / 16)"
    by simp_all
  have "hypot ((X - 0) / 16 * 1000) ((Y - 0) / 16 * 1000) =
          hypot (X * (1000 / 16)) (Y * (1000 / 16))"
    by (simp only: e)
  also have "\<dots> = \<bar>1000 / 16\<bar> * hypot X Y"
    by (rule hypot_scale)
  also have "\<dots> = hypot X Y / 16 * 1000"
    by simp
  finally show ?thesis .
qed

text \<open>
  Claim C9. On the first pointer-move event the pointer state is the initial one
  (\<^verbatim>\<open>lastTime = 0\<close>, \<^verbatim>\<open>lastX = lastY = 0\<close>): the time delta is the fixed 16 ms whatever
  the clock says, and the position delta is measured from (0, 0). A first sample at client
  position \<open>(X, Y)\<close> therefore stores the speed \<open>min(maxSpeed, hypot(X, Y) / 16 * 1000)\<close>
  and a velocity in the direction of \<open>(X, Y)\<close>: the speed times the unit vector of
  \<open>(X, Y)\<close>, a positive multiple of \<open>(X, Y)\<close>.
\<close>

theorem onMove_first_sample:
  fixes p now X Y rectLeft rectTop
  assumes "0 < maxSpeed p"
  defines "pr' \<equiv> onMove_pointer p now X Y rectLeft rectTop pointerRef_init"
  shows "speed pr' = min (maxSpeed p) (hypot X Y / 16 * 1000)
    \<and> (hypot X Y / 16 * 1000 \<le> maxSpeed p \<longrightarrow> vx pr' = X / 16 * 1000 \<and> vy pr' = Y / 16 * 1000)
    \<and> (hypot X Y \<noteq> 0 \<longrightarrow>
         vx pr' = speed pr' * (X / hypot X Y) \<and> vy pr' = speed pr' * (Y / hypot X Y))
    \<and> (\<exists>k>0. vx pr' = k * X \<and> vy pr' = k * Y)"
proof (cases "hypot X Y / 16 * 1000 > maxSpeed p")
  case True
  let ?k = "maxSpeed p / (hypot X Y / 16 * 1000)"
  from True assms(1) have h0: "0 < hypot X Y" by simp
  have v: "vx pr' = X / 16 * 1000 * ?k" "vy pr' = Y / 16 * 1000 * ?k" "speed pr' = maxSpeed p"
    using True first_sample_raw[of X Y] unfolding pr'_def
    by (simp_all add: onMove_pointer_def pointerRef_init_def Let_def)
  have dir: "vx pr' = speed pr' * (X / hypot X Y)" "vy pr' = speed pr' * (Y / hypot X Y)"
    unfolding v using h0 by (simp_all add: field_simps)
  have "0 < maxSpeed p / hypot X Y" using h0 assms(1) by simp
  moreover have "vx pr' = maxSpeed p / hypot X Y * X" "vy pr' = maxSpeed p / hypot X Y * Y"
    using dir v(3) by simp_all
  ultimately have ex: "\<exists>k>0. vx pr' = k * X \<and> vy pr' = k * Y" by blast
  from True v(3) dir ex show ?thesis by simp
next
  case False
  have v: "vx pr' = X / 16 * 1000" "vy pr' = Y / 16 * 1000" "speed pr' = hypot X Y / 16 * 1000"
    using False first_sample_raw[of X Y] unfolding pr'_def
    by (simp_all add: onMove_pointer_def pointerRef_init_def Let_def)
  have dir: "hypot X Y \<noteq> 0 \<longrightarrow>
         vx pr' = speed pr' * (X / hypot X Y) \<and> vy pr' = speed pr' * (Y / hypot X Y)"
    unfolding v by (simp add: field_simps)
  have ex: "\<exists>k>0. vx pr' = k * X \<and> vy pr' = k * Y"
    unfolding v by (intro exI[of _ "1000 / 16"]) simp
  from False v dir ex show ?thesis by simp
qed

lemma hypot_30_40: "hypot 30 40 = 50"
  unfolding hypot_def by (rule real_sqrt_unique) simp_all

lemma hypot_300_400: "hypot 300 400 = 500"
  unfolding hypot_def by (rule real_sqrt_unique) simp_all

text \<open>
  A first sample at (30, 40) stores the speed 3125 and the velocity (1875, 2500); one at
  (300, 400) is clamped to the speed 5000 and the velocity (3000, 4000).
\<close>

theorem onMove_first_sample_witness:
  "0 < maxSpeed App_DotGrid
   \<and> speed (onMove_pointer App_DotGrid 1234 30 40 0 0 pointerRef_init) = 3125
   \<and> vx (onMove_pointer App_DotGrid 1234 30 40 0 0 pointerRef_init) = 1875
   \<and> vy (onMove_pointer App_DotGrid 1234 30 40 0 0 pointerRef_init) = 2500
   \<and> speed (onMove_pointer App_DotGrid 1234 300 400 0 0 pointerRef_init) = 5000
   \<and> vx (onMove_pointer App_DotGrid 1234 300 400 0 0 pointerRef_init) = 3000
   \<and> vy (onMove_pointer App_DotGrid 1234 300 400 0 0 pointerRef_init) = 4000"
proof -
  have m: "maxSpeed App_DotGrid = 5000"
    by (simp add: App_DotGrid_def DotGrid_defaults_def)
  have h: "0 < maxSpeed App_DotGrid" by (simp add: m)
  from onMove_first_sample[OF h, of 1234 30 40 0 0] hypot_30_40 m
  have a: "speed (onMove_pointer App_DotGrid 1234 30 40 0 0 pointerRef_init) = 3125
   \<and> vx (onMove_pointer App_DotGrid 1234 30 40 0 0 pointerRef_init) = 1875
   \<and> vy (onMove_pointer App_DotGrid 1234 30 40 0 0 pointerRef_init) = 2500"
    by simp
  from onMove_first_sample[OF h, of 1234 300 400 0 0] hypot_300_400 m
  have c: "speed (onMove_pointer App_DotGrid 1234 300 400 0 0 pointerRef_init) = 5000
   \<and> vx (onMove_pointer App_DotGrid 1234 300 400 0 0 pointerRef_init) = 3000
   \<and> vy (onMove_pointer App_DotGrid 1234 300 400 0 0 pointerRef_init) = 4000"
    by simp
  from h a c show ?thesis by simp
qed

subsection \<open>draw: the fill of a dot\<close>

text \<open>The test on squared distances is the test on the distance itself.\<close>

lemma dsq_le_iff:
  fixes prox :: real
  assumes "0 < prox"
  shows "a * a + c * c \<le> prox * prox \<longleftrightarrow> hypot a c \<le> prox"
proof -
  have "hypot a c \<le> prox \<longleftrightarrow> sqrt (a * a + c * c) \<le> sqrt (prox * prox)"
    using assms by (simp add: hypot_def)
  also have "\<dots> \<longleftrightarrow> a * a + c * c \<le> prox * prox"
    by (rule real_sqrt_le_iff)
  finally show ?thesis by simp
qed

lemma dotFill_near:
  assumes "0 < proximity p" "hypot (cx d - ptr_x pr) (cy d - ptr_y pr) \<le> proximity p"
  shows "dotFill p pr d =
     RgbString
       (round (of_int (rgb_r (hexToRgb (baseColor p))) +
          (of_int (rgb_r (hexToRgb (activeColor p))) - of_int (rgb_r (hexToRgb (baseColor p)))) *
          (1 - hypot (cx d - ptr_x pr) (cy d - ptr_y pr) / proximity p)))
       (round (of_int (rgb_g (hexToRgb (baseColor p))) +
          (of_int (rgb_g (hexToRgb (activeColor p))) - of_int (rgb_g (hexToRgb (baseColor p)))) *
          (1 - hypot (cx d - ptr_x pr) (cy d - ptr_y pr) / proximity p)))
       (round (of_int (rgb_b (hexToRgb (baseColor p))) +
          (of_int (rgb_b (hexToRgb (activeColor p))) - of_int (rgb_b (hexToRgb (baseColor p)))) *
          (1 - hypot (cx d - ptr_x pr) (cy d - ptr_y pr) / proximity p)))"
  using assms(2) dsq_le_iff[OF assms(1), of "cx d - ptr_x pr" "cy d - ptr_y pr"]
  by (simp add: dotFill_def Let_def hypot_def)

lemma dotFill_far:
  assumes "0 < proximity p" "hypot (cx d - ptr_x pr) (cy d - ptr_y pr) > proximity p"
  shows "dotFill p pr d = ColorString (baseColor p)"
  using assms(2) dsq_le_iff[OF assms(1), of "cx d - ptr_x pr" "cy d - ptr_y pr"]
  by (simp add: dotFill_def Let_def)

text \<open>
  Claim C4. With a positive \<^verbatim>\<open>proximity\<close>: for a dot whose rest centre is at distance
  at most \<^verbatim>\<open>proximity\<close> from the pointer, the fill is the linear interpolation of the
  base and active colours with \<open>t = 1 - distance / proximity\<close> (which lies in [0, 1]),
  rounded per channel; at distance exactly \<^verbatim>\<open>proximity\<close> the channels are those of the
  base colour, at distance 0 those of the active colour; a dot farther away is filled
  with the base colour string unchanged.
\<close>

theorem dotFill_interpolates:
  fixes p pr d
  assumes "0 < proximity p"
  defines "dst \<equiv> hypot (cx d - ptr_x pr) (cy d - ptr_y pr)"
  defines "t \<equiv> 1 - dst / proximity p"
  defines "base \<equiv> hexToRgb (baseColor p)" and "active \<equiv> hexToRgb (activeColor p)"
  shows "(dst \<le> proximity p \<longrightarrow> 0 \<le> t \<and> t \<le> 1 \<and>
           dotFill p pr d =
             RgbString
               (round (of_int (rgb_r base) + (of_int (rgb_r active) - of_int (rgb_r base)) * t))
               (round (of_int (rgb_g base) + (of_int (rgb_g active) - of_int (rgb_g base)) * t))
               (round (of_int (rgb_b base) + (of_int (rgb_b active) - of_int (rgb_b base)) * t)))
    \<and> (dst = proximity p \<longrightarrow>
           dotFill p pr d = RgbString (rgb_r base) (rgb_g base) (rgb_b base))
    \<and> (dst = 0 \<longrightarrow>
           dotFill p pr d = RgbString (rgb_r active) (rgb_g active) (rgb_b active))
    \<and> (dst > proximity p \<longrightarrow> dotFill p pr d = ColorString (baseColor p))"
proof -
  have d0: "0 \<le> dst" unfolding dst_def by (simp add: hypot_def)
  have near: "dst \<le> proximity p \<Longrightarrow> dotFill p pr d =
             RgbString
               (round (of_int (rgb_r base) + (of_int (rgb_r active) - of_int (rgb_r base)) * t))
               (round (of_int (rgb_g base) + (of_int (rgb_g active) - of_int (rgb_g base)) * t))
               (round (of_int (rgb_b base) + (of_int (rgb_b active) - of_int (rgb_b base)) * t))"
    unfolding dst_def t_def base_def active_def by (rule dotFill_near[OF assms(1)])
  have trange: "dst \<le> proximity p \<Longrightarrow> 0 \<le> t \<and> t \<le> 1"
    unfolding t_def using d0 assms(1) by simp
  have edge: "dst = proximity p \<Longrightarrow>
      dotFill p pr d = RgbString (rgb_r base) (rgb_g base) (rgb_b base)"
  proof -
    assume e: "dst = proximity p"
    then have "t = 0" unfolding t_def using assms(1) by simp
    with near e show ?thesis by simp
  qed
  have centre: "dst = 0 \<Longrightarrow>
      dotFill p pr d = RgbString (rgb_r active) (rgb_g active) (rgb_b active)"
  proof -
    assume e: "dst = 0"
    then have "t = 1" unfolding t_def by simp
    with near e assms(1) show ?thesis by simp
  qed
  have far: "dst > proximity p \<Longrightarrow> dotFill p pr d = ColorString (baseColor p)"
    unfolding dst_def by (rule dotFill_far[OF assms(1)])
  from near trange edge centre far show ?thesis by blast
qed

lemma hypot_axis: "hypot a 0 = \<bar>a\<bar>"
  by (simp add: hypot_def)

text \<open>
  The page's grid (base \<^verbatim>\<open>#dcdcdc\<close>, active \<^verbatim>\<open>#FF8C00\<close>, proximity 90) and a dot at
  (10, 10): the pointer on the dot, 45 px away (the red channel 237.5 is rounded up),
  90 px away and 91 px away.
\<close>

theorem dotFill_interpolates_witness:
  "0 < proximity App_DotGrid
   \<and> dotFill App_DotGrid (pointerRef_init\<lparr>ptr_x := 10, ptr_y := 10\<rparr>)
        \<lparr>cx = 10, cy = 10, xOffset = 0, yOffset = 0, inertiaApplied = False\<rparr> = RgbString 255 140 0
   \<and> dotFill App_DotGrid (pointerRef_init\<lparr>ptr_x := 55, ptr_y := 10\<rparr>)
        \<lparr>cx = 10, cy = 10, xOffset = 0, yOffset = 0, inertiaApplied = False\<rparr> = RgbString 238 180 110
   \<and> dotFill App_DotGrid (pointerRef_init\<lparr>ptr_x := 100, ptr_y := 10\<rparr>)
        \<lparr>cx = 10, cy = 10, xOffset = 0, yOffset = 0, inertiaApplied = False\<rparr> = RgbString 220 220 220
   \<and> dotFill App_DotGrid (pointerRef_init\<lparr>ptr_x := 101, ptr_y := 10\<rparr>)
        \<lparr>cx = 10, cy = 10, xOffset = 0, yOffset = 0, inertiaApplied = False\<rparr> = ColorString ''#dcdcdc''"
proof -
  let ?d = "\<lparr>cx = 10, cy = 10, xOffset = 0, yOffset = 0, inertiaApplied = False\<rparr>"
  have props: "proximity App_DotGrid = 90" "baseColor App_DotGrid = ''#dcdcdc''"
    "activeColor App_DotGrid = ''#FF8C00''"
    by (simp_all add: App_DotGrid_def DotGrid_defaults_def)
  have cols: "hexToRgb ''#dcdcdc'' = \<lparr>rgb_r = 220, rgb_g = 220, rgb_b = 220\<rparr>"
    "hexToRgb ''#FF8C00'' = \<lparr>rgb_r = 255, rgb_g = 140, rgb_b = 0\<rparr>"
    by (simp_all add: hexToRgb_def hexMatch_def parseInt16_def isHexDigit_def hexDigitValue_def)
  have h: "0 < proximity App_DotGrid" by (simp add: props)
  have r: "round (475 / 2 :: real) = 238"
    by (simp add: round_def)
  from dotFill_interpolates[OF h, of ?d "pointerRef_init\<lparr>ptr_x := 10, ptr_y := 10\<rparr>"]
  have a: "dotFill App_DotGrid (pointerRef_init\<lparr>ptr_x := 10, ptr_y := 10\<rparr>) ?d = RgbString 255 140 0"
    by (simp add: props cols hypot_axis)
  from dotFill_interpolates[OF h, of ?d "pointerRef_init\<lparr>ptr_x := 55, ptr_y := 10\<rparr>"]
  have b: "dotFill App_DotGrid (pointerRef_init\<lparr>ptr_x := 55, ptr_y := 10\<rparr>) ?d = RgbString 238 180 110"
    by (simp add: props cols hypot_axis r)
  from dotFill_interpolates[OF h, of ?d "pointerRef_init\<lparr>ptr_x := 100, ptr_y := 10\<rparr>"]
  have c: "dotFill App_DotGrid (pointerRef_init\<lparr>ptr_x := 100, ptr_y := 10\<rparr>) ?d = RgbString 220 220 220"
    by (simp add: props cols hypot_axis)
  from dotFill_interpolates[OF h, of ?d "pointerRef_init\<lparr>ptr_x := 101, ptr_y := 10\<rparr>"]
  have e: "dotFill App_DotGrid (pointerRef_init\<lparr>ptr_x := 101, ptr_y := 10\<rparr>) ?d = ColorString ''#dcdcdc''"
    by (simp add: props cols hypot_axis)
  from h a b c e show ?thesis by simp
qed

subsection \<open>ClickSpark: handleClick\<close>

lemma handleClick_length:
  "length (handleClick q now clientX clientY sparks) = length sparks + sparkCount q"
  by (simp add: handleClick_def)

lemma handleClick_old:
  "take (length sparks) (handleClick q now clientX clientY sparks) = sparks"
  by (simp add: handleClick_def)

lemma handleClick_new:
  "i < sparkCount q \<Longrightarrow>
     handleClick q now clientX clientY sparks ! (length sparks + i) =
       \<lparr>spark_x = clientX, spark_y = clientY,
        angle = (2 * pi * real i) / real (sparkCount q), startTime = now\<rparr>"
  by (simp add: handleClick_def nth_append)

lemma upt_8: "[0..<8] = [0, 1, 2, 3, 4, 5, 6, 7]"
  by (simp add: upt_conv_Cons)

lemma handleClick_eight:
  "sparkCount q = 8 \<Longrightarrow>
     map angle (drop (length sparks) (handleClick q now clientX clientY sparks)) =
       [0, pi / 4, pi / 2, 3 * pi / 4, pi, 5 * pi / 4, 3 * pi / 2, 7 * pi / 4]"
  by (simp add: handleClick_def upt_8)

text \<open>
  Claim C5. Every click appends exactly \<^verbatim>\<open>sparkCount\<close> new sparks to the spark
  collection (the sparks already there stay in front, unchanged); the new spark \<open>i\<close>, for
  \<open>i\<close> in \<open>[0, sparkCount)\<close>, has the angle \<open>2\<pi> * i / sparkCount\<close>, the click's position
  as origin and the click's clock value as creation time. With \<^verbatim>\<open>sparkCount = 8\<close> the
  angles are \<open>0, \<pi>/4, \<pi>/2, ..., 7\<pi>/4\<close>.
\<close>

theorem handleClick_appends:
  "length (handleClick q now clientX clientY sparks) = length sparks + sparkCount q
   \<and> take (length sparks) (handleClick q now clientX clientY sparks) = sparks
   \<and> (\<forall>i < sparkCount q.
         handleClick q now clientX clientY sparks ! (length sparks + i) =
           \<lparr>spark_x = clientX, spark_y = clientY,
            angle = (2 * pi * real i) / real (sparkCount q), startTime = now\<rparr>)
   \<and> (sparkCount q = 8 \<longrightarrow>
         map angle (drop (length sparks) (handleClick q now clientX clientY sparks)) =
           [0, pi / 4, pi / 2, 3 * pi / 4, pi, 5 * pi / 4, 3 * pi / 2, 7 * pi / 4])"
  using handleClick_length[of q now clientX clientY sparks]
    handleClick_old[of sparks q now clientX clientY]
    handleClick_new[of _ q now clientX clientY sparks]
    handleClick_eight[of q sparks now clientX clientY]
  by blast

text \<open>
  A click at (200, 100) at time 1000 with the props of the page, on an empty collection.
\<close>

theorem handleClick_appends_witness:
  "sparkCount App_ClickSpark = 8
   \<and> length (handleClick App_ClickSpark 1000 200 100 []) = 8
   \<and> (3::nat) < sparkCount App_ClickSpark
   \<and> handleClick App_ClickSpark 1000 200 100 [] ! 3 =
        \<lparr>spark_x = 200, spark_y = 100, angle = 3 * pi / 4, startTime = 1000\<rparr>
   \<and> map angle (handleClick App_ClickSpark 1000 200 100 []) =
        [0, pi / 4, pi / 2, 3 * pi / 4, pi, 5 * pi / 4, 3 * pi / 2, 7 * pi / 4]"
proof -
  have n: "sparkCount App_ClickSpark = 8"
    by (simp add: App_ClickSpark_def ClickSpark_defaults_def)
  have i: "(3::nat) < sparkCount App_ClickSpark" by (simp add: n)
  note t = handleClick_appends[of App_ClickSpark 1000 200 100 "[]"]
  from t have len: "length (handleClick App_ClickSpark 1000 200 100 []) = 8"
    by (simp add: n)
  from t i have e: "handleClick App_ClickSpark 1000 200 100 [] ! (length ([]::spark list) + 3) =
        \<lparr>spark_x = 200, spark_y = 100, angle = (2 * pi * real (3::nat)) / real (sparkCount App_ClickSpark), startTime = 1000\<rparr>"
    by blast
  from t n have m: "map angle (drop (length ([]::spark list)) (handleClick App_ClickSpark 1000 200 100 [])) =
        [0, pi / 4, pi / 2, 3 * pi / 4, pi, 5 * pi / 4, 3 * pi / 2, 7 * pi / 4]"
    by blast
  from n i len e m show ?thesis by simp
qed

subsection \<open>ClickSpark: draw\<close>

lemma drawSparks_fst:
  "fst (drawSparks q timestamp sparks) =
     filter (\<lambda>sp. timestamp - startTime sp < duration q) sparks"
  by (induction sparks) (auto simp: Let_def)

lemma drawSparks_snd:
  "snd (drawSparks q timestamp sparks) =
     map (sparkStroke q timestamp) (fst (drawSparks q timestamp sparks))"
  by (induction sparks) (auto simp: Let_def)

text \<open>
  Claim C6. The filter step of a frame removes a spark exactly when its age (the frame's
  timestamp minus \<^verbatim>\<open>startTime\<close>) is at least \<^verbatim>\<open>duration\<close> and keeps it otherwise,
  drawing one line per spark kept; so after a frame whose timestamp exceeds
  \<open>startTime + duration\<close> of every spark the collection is empty (and nothing is drawn).
\<close>

theorem drawSparks_expiry:
  "fst (drawSparks q timestamp sparks) =
     filter (\<lambda>sp. timestamp - startTime sp < duration q) sparks
   \<and> (\<forall>sp \<in> set sparks.
         sp \<in> set (fst (drawSparks q timestamp sparks)) \<longleftrightarrow>
           \<not> (timestamp - startTime sp \<ge> duration q))
   \<and> snd (drawSparks q timestamp sparks) =
       map (sparkStroke q timestamp) (fst (drawSparks q timestamp sparks))
   \<and> ((\<forall>sp \<in> set sparks. timestamp > startTime sp + duration q) \<longrightarrow>
         fst (drawSparks q timestamp sparks) = [] \<and> snd (drawSparks q timestamp sparks) = [])"
proof -
  have a: "fst (drawSparks q timestamp sparks) =
     filter (\<lambda>sp. timestamp - startTime sp < duration q) sparks"
    by (rule drawSparks_fst)
  have b: "\<forall>sp \<in> set sparks.
         sp \<in> set (fst (drawSparks q timestamp sparks)) \<longleftrightarrow>
           \<not> (timestamp - startTime sp \<ge> duration q)"
    unfolding a by auto
  have c: "snd (drawSparks q timestamp sparks) =
       map (sparkStroke q timestamp) (fst (drawSparks q timestamp sparks))"
    by (rule drawSparks_snd)
  have d: "(\<forall>sp \<in> set sparks. timestamp > startTime sp + duration q) \<longrightarrow>
         fst (drawSparks q timestamp sparks) = [] \<and> snd (drawSparks q timestamp sparks) = []"
    unfolding c unfolding a by (auto simp: filter_empty_conv)
  from a b c d show ?thesis by blast
qed

lemma handleClick_startTime:
  "sp \<in> set (handleClick q now clientX clientY []) \<Longrightarrow> startTime sp = now"
  by (auto simp: handleClick_def)

text \<open>
  The eight sparks of a click at time 1000, with the page's duration of 400 ms: all are
  gone in a frame at 1401 and in a frame at 1400 (age equal to the duration), all are
  kept in a frame at 1399.
\<close>

theorem drawSparks_expiry_witness:
  "list_all (\<lambda>sp. 1401 > startTime sp + duration App_ClickSpark)
     (handleClick App_ClickSpark 1000 200 100 [])
   \<and> length (handleClick App_ClickSpark 1000 200 100 []) = 8
   \<and> fst (drawSparks App_ClickSpark 1401 (handleClick App_ClickSpark 1000 200 100 [])) = []
   \<and> fst (drawSparks App_ClickSpark 1400 (handleClick App_ClickSpark 1000 200 100 [])) = []
   \<and> fst (drawSparks App_ClickSpark 1399 (handleClick App_ClickSpark 1000 200 100 [])) =
       handleClick App_ClickSpark 1000 200 100 []"
proof -
  let ?s = "handleClick App_ClickSpark 1000 200 100 []"
  have dur: "duration App_ClickSpark = 400"
    by (simp add: App_ClickSpark_def ClickSpark_defaults_def)
  have h: "\<forall>sp \<in> set ?s. 1401 > startTime sp + duration App_ClickSpark"
    using handleClick_startTime[of _ App_ClickSpark 1000 200 100] by (auto simp: dur)
  have len: "length ?s = 8"
    by (simp add: handleClick_length App_ClickSpark_def ClickSpark_defaults_def)
  from drawSparks_expiry[of App_ClickSpark 1401 ?s] h
  have a: "fst (drawSparks App_ClickSpark 1401 ?s) = []" by blast
  have f0: "filter (\<lambda>sp. 1400 - startTime sp < (400::real)) ?s = []"
    using handleClick_startTime[of _ App_ClickSpark 1000 200 100]
    by (auto simp: filter_empty_conv)
  have f1: "filter (\<lambda>sp. 1399 - startTime sp < (400::real)) ?s = ?s"
    using handleClick_startTime[of _ App_ClickSpark 1000 200 100]
    by (auto simp: filter_id_conv)
  from drawSparks_expiry[of App_ClickSpark 1400 ?s] f0
  have b: "fst (drawSparks App_ClickSpark 1400 ?s) = []" by (simp add: dur)
  from drawSparks_expiry[of App_ClickSpark 1399 ?s] f1
  have c: "fst (drawSparks App_ClickSpark 1399 ?s) = ?s" by (simp add: dur)
  from h have h': "list_all (\<lambda>sp. 1401 > startTime sp + duration App_ClickSpark) ?s"
    by (simp add: list_all_iff)
  from h' len a b c show ?thesis by blast
qed


subsection \<open>ClickSpark: easeFunc\<close>

lemma easeFunc_modes:
  "easeFunc ''linear'' t = t"
  "easeFunc ''ease-in'' t = t * t"
  "easeFunc ''ease-in-out'' t = (if t < 1 / 2 then 2 * t * t else - 1 + (4 - 2 * t) * t)"
  "easeFunc ''ease-out'' t = t * (2 - t)"
  by (simp_all add: easeFunc_def)

lemma easeFunc_0: "easeFunc mode 0 = 0"
  by (simp add: easeFunc_def)

lemma easeFunc_1: "easeFunc mode 1 = 1"
  by (simp add: easeFunc_def)

lemma easeFunc_mono:
  assumes "0 \<le> s" "s \<le> t" "t \<le> 1"
  shows "easeFunc mode s \<le> easeFunc mode t"
proof -
  have lin: "s \<le> t" by fact
  have sq: "s * s \<le> t * t"
    using assms by (intro mult_mono) auto
  have out: "s * (2 - s) \<le> t * (2 - t)"
  proof -
    have "0 \<le> (t - s) * (2 - t - s)"
      using assms by (intro mult_nonneg_nonneg) auto
    then show ?thesis by (simp add: algebra_simps)
  qed
  have inout: "(if s < 1 / 2 then 2 * s * s else - 1 + (4 - 2 * s) * s)
                 \<le> (if t < 1 / 2 then 2 * t * t else - 1 + (4 - 2 * t) * t)"
  proof (cases "t < 1 / 2")
    case True
    with assms have "s < 1 / 2" by simp
    with True sq show ?thesis by simp
  next
    case tF: False
    show ?thesis
    proof (cases "s < 1 / 2")
      case True
      have "0 \<le> (1 / 2 - s) * (1 / 2 + s)"
        using True assms by (intro mult_nonneg_nonneg) auto
      then have a: "2 * s * s \<le> 1 / 2" by (simp add: algebra_simps)
      have nn: "0 \<le> (t - 1 / 2) * (3 / 2 - t)"
        using tF assms by (intro mult_nonneg_nonneg) auto
      have eq: "- 1 + (4 - 2 * t) * t = 1 / 2 + 2 * ((t - 1 / 2) * (3 / 2 - t))"
        by (simp add: field_simps)
      have "1 / 2 \<le> - 1 + (4 - 2 * t) * t"
        unfolding eq using nn by linarith
      with a True tF show ?thesis by simp
    next
      case False
      have "0 \<le> (t - s) * (4 - 2 * (t + s))"
        using assms by (intro mult_nonneg_nonneg) auto
      then have "(4 - 2 * s) * s \<le> (4 - 2 * t) * t" by (simp add: algebra_simps)
      with False tF show ?thesis by simp
    qed
  qed
  from lin sq out inout show ?thesis
    by (simp add: easeFunc_def)
qed

lemma easeFunc_range:
  assumes "0 \<le> t" "t \<le> 1"
  shows "0 \<le> easeFunc mode t \<and> easeFunc mode t \<le> 1"
  using easeFunc_mono[of 0 t mode] easeFunc_mono[of t 1 mode] assms
  by (simp add: easeFunc_0 easeFunc_1)

lemma sparkEased_start: "sparkEased q (startTime sp) sp = 0"
  by (simp add: sparkEased_def easeFunc_0)

text \<open>
  The line that is drawn: it starts at radial distance \<^verbatim>\<open>distance\<close> from the origin and
  runs on for \<^verbatim>\<open>lineLength\<close> along the spark's angle.
\<close>

lemma sparkStroke_points:
  "x1 (sparkStroke q timestamp sp) = spark_x sp + sparkDistance q timestamp sp * cos (angle sp)"
  "y1 (sparkStroke q timestamp sp) = spark_y sp + sparkDistance q timestamp sp * sin (angle sp)"
  "x2 (sparkStroke q timestamp sp) =
     x1 (sparkStroke q timestamp sp) + sparkLineLength q timestamp sp * cos (angle sp)"
  "y2 (sparkStroke q timestamp sp) =
     y1 (sparkStroke q timestamp sp) + sparkLineLength q timestamp sp * sin (angle sp)"
  by (simp_all add: sparkStroke_def Let_def algebra_simps)

lemma hypot_polar: "hypot (l * cos a) (l * sin a) = \<bar>l\<bar>"
proof -
  have "l * cos a * (l * cos a) + l * sin a * (l * sin a) =
          l * l * (cos a * cos a + sin a * sin a)"
    by (simp only: ring_distribs mult_ac)
  also have "\<dots> = l * l"
    by (simp only: sin_cos_squared_add3 mult_1_right)
  finally have e: "l * cos a * (l * cos a) + l * sin a * (l * sin a) = l * l" .
  show ?thesis unfolding hypot_def e by (rule real_sqrt_abs2)
qed

lemma sparkStroke_length:
  "hypot (x2 (sparkStroke q timestamp sp) - x1 (sparkStroke q timestamp sp))
         (y2 (sparkStroke q timestamp sp) - y1 (sparkStroke q timestamp sp))
     = \<bar>sparkLineLength q timestamp sp\<bar>"
  by (simp add: sparkStroke_points(3,4) hypot_polar)

text \<open>
  Claim C10. Every easing mode (\<^verbatim>\<open>linear\<close> \<open>t\<close>, \<^verbatim>\<open>ease-in\<close> \<open>t * t\<close>, \<^verbatim>\<open>ease-in-out\<close>
  piecewise quadratic, and the default, ease-out, \<open>t * (2 - t)\<close>, which any other mode
  string selects) satisfies \<open>easeFunc 0 = 0\<close> and \<open>easeFunc 1 = 1\<close>, and is monotone on
  [0, 1] with values in [0, 1]. Hence at age 0 (and a positive duration) a spark is kept
  and drawn with its near point exactly at its origin, at radial distance 0, with line
  length \<^verbatim>\<open>sparkSize\<close>; the line length is \<open>sparkSize * (1 - eased)\<close>, it does not grow
  with the age of the spark, stays between 0 and \<^verbatim>\<open>sparkSize\<close>, and is 0 where the
  eased progress reaches 1. The line length is the length of the line that is drawn: the
  far point \<open>(x2, y2)\<close> lies \<^verbatim>\<open>lineLength\<close> beyond the near point \<open>(x1, y1)\<close> along the
  spark's angle, so at age 0 the drawn line runs from the origin to the point
  \<^verbatim>\<open>sparkSize\<close> away, and the distance between the two drawn end points shrinks from
  \<^verbatim>\<open>sparkSize\<close> to 0.
\<close>

theorem easeFunc_endpoints:
  "easeFunc mode 0 = 0 \<and> easeFunc mode 1 = 1
   \<and> easeFunc ''linear'' t = t
   \<and> easeFunc ''ease-in'' t = t * t
   \<and> easeFunc ''ease-in-out'' t = (if t < 1 / 2 then 2 * t * t else - 1 + (4 - 2 * t) * t)
   \<and> easeFunc ''ease-out'' t = t * (2 - t)
   \<and> (0 \<le> s \<and> s \<le> t \<and> t \<le> 1 \<longrightarrow>
         0 \<le> easeFunc mode s \<and> easeFunc mode s \<le> easeFunc mode t \<and> easeFunc mode t \<le> 1)
   \<and> (0 < duration q \<longrightarrow>
         drawSparks q (startTime sp) [sp] = ([sp], [sparkStroke q (startTime sp) sp])
         \<and> sparkDistance q (startTime sp) sp = 0
         \<and> x1 (sparkStroke q (startTime sp) sp) = spark_x sp
         \<and> y1 (sparkStroke q (startTime sp) sp) = spark_y sp
         \<and> sparkLineLength q (startTime sp) sp = sparkSize q
         \<and> x2 (sparkStroke q (startTime sp) sp) = spark_x sp + sparkSize q * cos (angle sp)
         \<and> y2 (sparkStroke q (startTime sp) sp) = spark_y sp + sparkSize q * sin (angle sp)
         \<and> hypot (x2 (sparkStroke q (startTime sp) sp) - x1 (sparkStroke q (startTime sp) sp))
                  (y2 (sparkStroke q (startTime sp) sp) - y1 (sparkStroke q (startTime sp) sp))
               = \<bar>sparkSize q\<bar>)
   \<and> sparkLineLength q timestamp sp = sparkSize q * (1 - sparkEased q timestamp sp)
   \<and> x1 (sparkStroke q timestamp sp) =
         spark_x sp + sparkDistance q timestamp sp * cos (angle sp)
   \<and> y1 (sparkStroke q timestamp sp) =
         spark_y sp + sparkDistance q timestamp sp * sin (angle sp)
   \<and> x2 (sparkStroke q timestamp sp) =
         x1 (sparkStroke q timestamp sp) + sparkLineLength q timestamp sp * cos (angle sp)
   \<and> y2 (sparkStroke q timestamp sp) =
         y1 (sparkStroke q timestamp sp) + sparkLineLength q timestamp sp * sin (angle sp)
   \<and> hypot (x2 (sparkStroke q timestamp sp) - x1 (sparkStroke q timestamp sp))
            (y2 (sparkStroke q timestamp sp) - y1 (sparkStroke q timestamp sp))
         = \<bar>sparkLineLength q timestamp sp\<bar>
   \<and> (0 < duration q \<and> 0 \<le> sparkSize q \<and> startTime sp \<le> ts1 \<and> ts1 \<le> ts2
        \<and> ts2 \<le> startTime sp + duration q \<longrightarrow>
         0 \<le> sparkLineLength q ts2 sp
         \<and> sparkLineLength q ts2 sp \<le> sparkLineLength q ts1 sp
         \<and> sparkLineLength q ts1 sp \<le> sparkSize q
         \<and> hypot (x2 (sparkStroke q ts2 sp) - x1 (sparkStroke q ts2 sp))
                  (y2 (sparkStroke q ts2 sp) - y1 (sparkStroke q ts2 sp))
               \<le> hypot (x2 (sparkStroke q ts1 sp) - x1 (sparkStroke q ts1 sp))
                        (y2 (sparkStroke q ts1 sp) - y1 (sparkStroke q ts1 sp))
         \<and> hypot (x2 (sparkStroke q ts1 sp) - x1 (sparkStroke q ts1 sp))
                  (y2 (sparkStroke q ts1 sp) - y1 (sparkStroke q ts1 sp))
               \<le> sparkSize q)
   \<and> (0 < duration q \<longrightarrow>
         sparkLineLength q (startTime sp + duration q) sp = 0
         \<and> x2 (sparkStroke q (startTime sp + duration q) sp) =
               x1 (sparkStroke q (startTime sp + duration q) sp)
         \<and> y2 (sparkStroke q (startTime sp + duration q) sp) =
               y1 (sparkStroke q (startTime sp + duration q) sp))"
proof -
  have mono: "0 \<le> s \<and> s \<le> t \<and> t \<le> 1 \<longrightarrow>
         0 \<le> easeFunc mode s \<and> easeFunc mode s \<le> easeFunc mode t \<and> easeFunc mode t \<le> 1"
    using easeFunc_mono[of s t mode] easeFunc_range[of s mode] easeFunc_range[of t mode]
    by auto
  have len0: "0 < duration q \<longrightarrow> sparkLineLength q (startTime sp) sp = sparkSize q"
    by (simp add: sparkLineLength_def sparkEased_start)
  have start: "0 < duration q \<longrightarrow>
         drawSparks q (startTime sp) [sp] = ([sp], [sparkStroke q (startTime sp) sp])
         \<and> sparkDistance q (startTime sp) sp = 0
         \<and> x1 (sparkStroke q (startTime sp) sp) = spark_x sp
         \<and> y1 (sparkStroke q (startTime sp) sp) = spark_y sp
         \<and> sparkLineLength q (startTime sp) sp = sparkSize q
         \<and> x2 (sparkStroke q (startTime sp) sp) = spark_x sp + sparkSize q * cos (angle sp)
         \<and> y2 (sparkStroke q (startTime sp) sp) = spark_y sp + sparkSize q * sin (angle sp)
         \<and> hypot (x2 (sparkStroke q (startTime sp) sp) - x1 (sparkStroke q (startTime sp) sp))
                  (y2 (sparkStroke q (startTime sp) sp) - y1 (sparkStroke q (startTime sp) sp))
               = \<bar>sparkSize q\<bar>"
    using sparkStroke_length[of q "startTime sp" sp]
    by (simp add: sparkStroke_def sparkDistance_def sparkLineLength_def sparkEased_start Let_def)
  have len: "sparkLineLength q timestamp sp = sparkSize q * (1 - sparkEased q timestamp sp)"
    by (simp add: sparkLineLength_def)
  note pts = sparkStroke_points[of q timestamp sp]
  note drawn = sparkStroke_length[of q timestamp sp]
  have shrink0: "0 < duration q \<and> 0 \<le> sparkSize q \<and> startTime sp \<le> ts1 \<and> ts1 \<le> ts2
        \<and> ts2 \<le> startTime sp + duration q \<longrightarrow>
         0 \<le> sparkLineLength q ts2 sp
         \<and> sparkLineLength q ts2 sp \<le> sparkLineLength q ts1 sp
         \<and> sparkLineLength q ts1 sp \<le> sparkSize q"
  proof
    assume a: "0 < duration q \<and> 0 \<le> sparkSize q \<and> startTime sp \<le> ts1 \<and> ts1 \<le> ts2
        \<and> ts2 \<le> startTime sp + duration q"
    let ?p1 = "(ts1 - startTime sp) / duration q" and ?p2 = "(ts2 - startTime sp) / duration q"
    from a have p: "0 \<le> ?p1" "?p1 \<le> ?p2" "?p2 \<le> 1"
      by (simp_all add: divide_right_mono)
    from p have p1': "?p1 \<le> 1" by linarith
    from p have p2': "0 \<le> ?p2" by linarith
    have e: "easeFunc (easing q) ?p1 \<le> easeFunc (easing q) ?p2"
      using p by (rule easeFunc_mono)
    have r1: "0 \<le> easeFunc (easing q) ?p1" using easeFunc_range[OF p(1) p1'] by simp
    have r2: "easeFunc (easing q) ?p2 \<le> 1" using easeFunc_range[OF p2' p(3)] by simp
    have "0 \<le> sparkSize q * (1 - easeFunc (easing q) ?p2)"
      using a r2 by (intro mult_nonneg_nonneg) auto
    moreover have "sparkSize q * (1 - easeFunc (easing q) ?p2)
                     \<le> sparkSize q * (1 - easeFunc (easing q) ?p1)"
      using a e by (intro mult_left_mono) auto
    moreover have "sparkSize q * (1 - easeFunc (easing q) ?p1) \<le> sparkSize q * 1"
      using a r1 by (intro mult_left_mono) auto
    ultimately show "0 \<le> sparkLineLength q ts2 sp
         \<and> sparkLineLength q ts2 sp \<le> sparkLineLength q ts1 sp
         \<and> sparkLineLength q ts1 sp \<le> sparkSize q"
      by (simp add: sparkLineLength_def sparkEased_def Let_def)
  qed
  have shrink: "0 < duration q \<and> 0 \<le> sparkSize q \<and> startTime sp \<le> ts1 \<and> ts1 \<le> ts2
        \<and> ts2 \<le> startTime sp + duration q \<longrightarrow>
         0 \<le> sparkLineLength q ts2 sp
         \<and> sparkLineLength q ts2 sp \<le> sparkLineLength q ts1 sp
         \<and> sparkLineLength q ts1 sp \<le> sparkSize q
         \<and> hypot (x2 (sparkStroke q ts2 sp) - x1 (sparkStroke q ts2 sp))
                  (y2 (sparkStroke q ts2 sp) - y1 (sparkStroke q ts2 sp))
               \<le> hypot (x2 (sparkStroke q ts1 sp) - x1 (sparkStroke q ts1 sp))
                        (y2 (sparkStroke q ts1 sp) - y1 (sparkStroke q ts1 sp))
         \<and> hypot (x2 (sparkStroke q ts1 sp) - x1 (sparkStroke q ts1 sp))
                  (y2 (sparkStroke q ts1 sp) - y1 (sparkStroke q ts1 sp))
               \<le> sparkSize q"
    using shrink0 sparkStroke_length[of q ts1 sp] sparkStroke_length[of q ts2 sp]
    by auto
  have fin: "0 < duration q \<longrightarrow>
         sparkLineLength q (startTime sp + duration q) sp = 0
         \<and> x2 (sparkStroke q (startTime sp + duration q) sp) =
               x1 (sparkStroke q (startTime sp + duration q) sp)
         \<and> y2 (sparkStroke q (startTime sp + duration q) sp) =
               y1 (sparkStroke q (startTime sp + duration q) sp)"
  proof
    assume d: "0 < duration q"
    then have z: "sparkLineLength q (startTime sp + duration q) sp = 0"
      by (simp add: sparkLineLength_def sparkEased_def easeFunc_1)
    with sparkStroke_points(3,4)[of q "startTime sp + duration q" sp]
    show "sparkLineLength q (startTime sp + duration q) sp = 0
         \<and> x2 (sparkStroke q (startTime sp + duration q) sp) =
               x1 (sparkStroke q (startTime sp + duration q) sp)
         \<and> y2 (sparkStroke q (startTime sp + duration q) sp) =
               y1 (sparkStroke q (startTime sp + duration q) sp)"
      by simp
  qed
  from easeFunc_0[of mode] easeFunc_1[of mode] easeFunc_modes[of t] mono start len pts drawn
    shrink fin
  show ?thesis by blast
qed


text \<open>
  A spark created at time 1000 at (200, 100) with angle 0 and the props of the page
  (size 12, duration 400, the default easing), in frames at 1000, where the line is drawn
  from (200, 100) to (212, 100), at 1100, at 1200 and at the end of its life, 1400.
\<close>

theorem easeFunc_endpoints_witness:
  "(0::real) \<le> 1 / 4 \<and> (1 / 4 :: real) \<le> 1 / 2 \<and> (1 / 2 :: real) \<le> 1
   \<and> 0 < duration App_ClickSpark \<and> 0 \<le> sparkSize App_ClickSpark
   \<and> startTime \<lparr>spark_x = 200, spark_y = 100, angle = 0, startTime = 1000\<rparr> \<le> 1100
   \<and> (1100::real) \<le> 1200
   \<and> 1200 \<le> startTime \<lparr>spark_x = 200, spark_y = 100, angle = 0, startTime = 1000\<rparr>
         + duration App_ClickSpark
   \<and> easeFunc (easing App_ClickSpark) (1 / 4) \<le> easeFunc (easing App_ClickSpark) (1 / 2)
   \<and> x1 (sparkStroke App_ClickSpark 1000 \<lparr>spark_x = 200, spark_y = 100, angle = 0, startTime = 1000\<rparr>) = 200
   \<and> y1 (sparkStroke App_ClickSpark 1000 \<lparr>spark_x = 200, spark_y = 100, angle = 0, startTime = 1000\<rparr>) = 100
   \<and> sparkLineLength App_ClickSpark 1000 \<lparr>spark_x = 200, spark_y = 100, angle = 0, startTime = 1000\<rparr> = 12
   \<and> sparkLineLength App_ClickSpark 1200 \<lparr>spark_x = 200, spark_y = 100, angle = 0, startTime = 1000\<rparr>
        \<le> sparkLineLength App_ClickSpark 1100 \<lparr>spark_x = 200, spark_y = 100, angle = 0, startTime = 1000\<rparr>
   \<and> sparkLineLength App_ClickSpark 1400 \<lparr>spark_x = 200, spark_y = 100, angle = 0, startTime = 1000\<rparr> = 0
   \<and> x2 (sparkStroke App_ClickSpark 1000 \<lparr>spark_x = 200, spark_y = 100, angle = 0, startTime = 1000\<rparr>) = 212
   \<and> y2 (sparkStroke App_ClickSpark 1000 \<lparr>spark_x = 200, spark_y = 100, angle = 0, startTime = 1000\<rparr>) = 100
   \<and> hypot (x2 (sparkStroke App_ClickSpark 1200 \<lparr>spark_x = 200, spark_y = 100, angle = 0, startTime = 1000\<rparr>) - x1 (sparkStroke App_ClickSpark 1200 \<lparr>spark_x = 200, spark_y = 100, angle = 0, startTime = 1000\<rparr>))
            (y2 (sparkStroke App_ClickSpark 1200 \<lparr>spark_x = 200, spark_y = 100, angle = 0, startTime = 1000\<rparr>) - y1 (sparkStroke App_ClickSpark 1200 \<lparr>spark_x = 200, spark_y = 100, angle = 0, startTime = 1000\<rparr>))
        \<le> hypot (x2 (sparkStroke App_ClickSpark 1100 \<lparr>spark_x = 200, spark_y = 100, angle = 0, startTime = 1000\<rparr>) - x1 (sparkStroke App_ClickSpark 1100 \<lparr>spark_x = 200, spark_y = 100, angle = 0, startTime = 1000\<rparr>))
                 (y2 (sparkStroke App_ClickSpark 1100 \<lparr>spark_x = 200, spark_y = 100, angle = 0, startTime = 1000\<rparr>) - y1 (sparkStroke App_ClickSpark 1100 \<lparr>spark_x = 200, spark_y = 100, angle = 0, startTime = 1000\<rparr>))
   \<and> x2 (sparkStroke App_ClickSpark 1400 \<lparr>spark_x = 200, spark_y = 100, angle = 0, startTime = 1000\<rparr>) = x1 (sparkStroke App_ClickSpark 1400 \<lparr>spark_x = 200, spark_y = 100, angle = 0, startTime = 1000\<rparr>)"
proof -
  let ?sp = "\<lparr>spark_x = 200, spark_y = 100, angle = 0, startTime = 1000\<rparr>"
  have props: "duration App_ClickSpark = 400" "sparkSize App_ClickSpark = 12"
    by (simp_all add: App_ClickSpark_def ClickSpark_defaults_def)
  have h: "(0::real) \<le> 1 / 4 \<and> (1 / 4 :: real) \<le> 1 / 2 \<and> (1 / 2 :: real) \<le> 1"
    "0 < duration App_ClickSpark"
    "0 < duration App_ClickSpark \<and> 0 \<le> sparkSize App_ClickSpark \<and> startTime ?sp \<le> 1100
       \<and> (1100::real) \<le> 1200 \<and> 1200 \<le> startTime ?sp + duration App_ClickSpark"
    by (simp_all add: props)
  note t = easeFunc_endpoints[of "easing App_ClickSpark" "1 / 2" "1 / 4" App_ClickSpark ?sp
      1000 1100 1200]
  from t h(1) have a: "easeFunc (easing App_ClickSpark) (1 / 4) \<le> easeFunc (easing App_ClickSpark) (1 / 2)"
    by blast
  from t h(2) have b: "x1 (sparkStroke App_ClickSpark (startTime ?sp) ?sp) = spark_x ?sp"
    "y1 (sparkStroke App_ClickSpark (startTime ?sp) ?sp) = spark_y ?sp"
    "sparkLineLength App_ClickSpark (startTime ?sp) ?sp = sparkSize App_ClickSpark"
    "sparkLineLength App_ClickSpark (startTime ?sp + duration App_ClickSpark) ?sp = 0"
    "x2 (sparkStroke App_ClickSpark (startTime ?sp) ?sp) =
       spark_x ?sp + sparkSize App_ClickSpark * cos (angle ?sp)"
    "y2 (sparkStroke App_ClickSpark (startTime ?sp) ?sp) =
       spark_y ?sp + sparkSize App_ClickSpark * sin (angle ?sp)"
    "x2 (sparkStroke App_ClickSpark (startTime ?sp + duration App_ClickSpark) ?sp) =
       x1 (sparkStroke App_ClickSpark (startTime ?sp + duration App_ClickSpark) ?sp)"
    by blast+
  from t h(3) have c: "sparkLineLength App_ClickSpark 1200 ?sp \<le> sparkLineLength App_ClickSpark 1100 ?sp"
    "hypot (x2 (sparkStroke App_ClickSpark 1200 ?sp) - x1 (sparkStroke App_ClickSpark 1200 ?sp))
           (y2 (sparkStroke App_ClickSpark 1200 ?sp) - y1 (sparkStroke App_ClickSpark 1200 ?sp))
      \<le> hypot (x2 (sparkStroke App_ClickSpark 1100 ?sp) - x1 (sparkStroke App_ClickSpark 1100 ?sp))
               (y2 (sparkStroke App_ClickSpark 1100 ?sp) - y1 (sparkStroke App_ClickSpark 1100 ?sp))"
    by blast+
  from h a b c show ?thesis by (simp add: props)
qed

subsection \<open>onMove and onClick: one animation per dot\<close>

lemma atRest_oneAnimation: "atRest tg \<Longrightarrow> oneAnimation tg"
  by (simp add: atRest_def oneAnimation_def)

lemma onMove_dot_cases:
  "onMove_dot p pr tg = tg \<or>
   (\<not> inertiaApplied (fst tg) \<and> inertiaApplied (fst (onMove_dot p pr tg)) \<and>
    (\<exists>a c. snd (onMove_dot p pr tg) = [InertiaTween a c (resistance p) (returnDuration p)]))"
  by (simp add: onMove_dot_def Let_def gsap_to_def killTweensOf_def)

lemma onClick_dot_cases:
  "onClick_dot p clickX clickY tg = tg \<or>
   (\<not> inertiaApplied (fst tg) \<and> inertiaApplied (fst (onClick_dot p clickX clickY tg)) \<and>
    (\<exists>a c. snd (onClick_dot p clickX clickY tg) =
             [InertiaTween a c (resistance p) (returnDuration p)]))"
  by (simp add: onClick_dot_def Let_def gsap_to_def killTweensOf_def)

lemma onMove_dot_guard: "inertiaApplied (fst tg) \<Longrightarrow> onMove_dot p pr tg = tg"
  by (simp add: onMove_dot_def Let_def)

lemma onClick_dot_guard: "inertiaApplied (fst tg) \<Longrightarrow> onClick_dot p clickX clickY tg = tg"
  by (simp add: onClick_dot_def Let_def)

lemma onMove_dot_oneAnimation:
  assumes "oneAnimation tg"
  shows "oneAnimation (onMove_dot p pr tg)"
proof (cases "onMove_dot p pr tg = tg")
  case True
  with assms show ?thesis by simp
next
  case False
  with onMove_dot_cases[of p pr tg] show ?thesis
    by (auto simp: oneAnimation_def)
qed

lemma onClick_dot_oneAnimation:
  assumes "oneAnimation tg"
  shows "oneAnimation (onClick_dot p clickX clickY tg)"
proof (cases "onClick_dot p clickX clickY tg = tg")
  case True
  with assms show ?thesis by simp
next
  case False
  with onClick_dot_cases[of p clickX clickY tg] show ?thesis
    by (auto simp: oneAnimation_def)
qed

lemma oneAnimation_flag:
  "oneAnimation tg \<Longrightarrow> inertiaApplied (fst tg) \<Longrightarrow> \<exists>a c e f. snd tg = [InertiaTween a c e f]"
  by (cases "snd tg"; cases "tl (snd tg)"; cases "hd (snd tg)") (auto simp: oneAnimation_def)

lemma oneAnimation_noflag:
  "oneAnimation tg \<Longrightarrow> \<not> inertiaApplied (fst tg) \<Longrightarrow> snd tg = [] \<or> (\<exists>f. snd tg = [ReturnTween f])"
  by (cases "snd tg"; cases "tl (snd tg)"; cases "hd (snd tg)") (auto simp: oneAnimation_def)

lemma inertiaComplete_flagged:
  assumes "oneAnimation tg" "inertiaApplied (fst tg)"
  shows "\<not> inertiaApplied (fst (inertiaComplete endX endY tg)) \<and>
         (\<exists>f. snd (inertiaComplete endX endY tg) = [ReturnTween f])"
proof -
  from oneAnimation_flag[OF assms] obtain a c e f where "snd tg = [InertiaTween a c e f]"
    by blast
  then show ?thesis
    by (simp add: inertiaComplete_def gsap_to_def)
qed

lemma inertiaComplete_oneAnimation:
  assumes "oneAnimation tg"
  shows "oneAnimation (inertiaComplete endX endY tg)"
proof (cases "inertiaApplied (fst tg)")
  case True
  from inertiaComplete_flagged[OF assms True, of endX endY] show ?thesis
    by (auto simp: oneAnimation_def)
next
  case False
  from oneAnimation_noflag[OF assms False] have "find isInertia (snd tg) = None"
    by auto
  then have "inertiaComplete endX endY tg = tg"
    by (simp add: inertiaComplete_def)
  with assms show ?thesis by simp
qed

lemma returnComplete_oneAnimation:
  assumes "oneAnimation tg"
  shows "oneAnimation (returnComplete tg)"
proof (cases "inertiaApplied (fst tg)")
  case True
  from oneAnimation_flag[OF assms True] have "find (\<lambda>tw. \<not> isInertia tw) (snd tg) = None"
    by auto
  then have "returnComplete tg = tg"
    by (simp add: returnComplete_def)
  with assms show ?thesis by simp
next
  case False
  from oneAnimation_noflag[OF assms False] False show ?thesis
    by (auto simp: returnComplete_def oneAnimation_def)
qed

lemma returnComplete_rest:
  assumes "oneAnimation tg" "snd tg = [ReturnTween f]"
  shows "atRest (returnComplete tg) \<and> xOffset (fst (returnComplete tg)) = 0
         \<and> yOffset (fst (returnComplete tg)) = 0"
  using assms by (simp add: returnComplete_def oneAnimation_def atRest_def)

lemma list_all_update: "list_all P xs \<Longrightarrow> P y \<Longrightarrow> list_all P (xs[i := y])"
  by (induction xs arbitrary: i) (auto split: nat.splits)

lemma gridStep_oneAnimation:
  assumes "list_all oneAnimation (dotsRef g)"
  shows "list_all oneAnimation (dotsRef (gridStep p g ev))"
proof (cases ev)
  case (MouseMove now clientX clientY rectLeft rectTop)
  with assms show ?thesis
    by (simp add: onMove_def Let_def list_all_iff onMove_dot_oneAnimation)
next
  case (MouseClick clientX clientY rectLeft rectTop)
  with assms show ?thesis
    by (simp add: onClick_def list_all_iff onClick_dot_oneAnimation)
next
  case (InertiaDone i endX endY)
  show ?thesis
  proof (cases "i < length (dotsRef g)")
    case True
    with assms have "oneAnimation (dotsRef g ! i)" by (simp add: list_all_length)
    then have "oneAnimation (inertiaComplete endX endY (dotsRef g ! i))"
      by (rule inertiaComplete_oneAnimation)
    with assms True InertiaDone show ?thesis by (simp add: list_all_update)
  next
    case False
    with assms InertiaDone show ?thesis by simp
  qed
next
  case (ReturnDone i)
  show ?thesis
  proof (cases "i < length (dotsRef g)")
    case True
    with assms have "oneAnimation (dotsRef g ! i)" by (simp add: list_all_length)
    then have "oneAnimation (returnComplete (dotsRef g ! i))"
      by (rule returnComplete_oneAnimation)
    with assms True ReturnDone show ?thesis by (simp add: list_all_update)
  next
    case False
    with assms ReturnDone show ?thesis by simp
  qed
qed

lemma gridStep_length: "length (dotsRef (gridStep p g ev)) = length (dotsRef g)"
  by (cases ev) (simp_all add: onMove_def onClick_def Let_def)

lemma gridRun_oneAnimation:
  "list_all oneAnimation (dotsRef g) \<Longrightarrow> list_all oneAnimation (dotsRef (gridRun p g evs))"
  unfolding gridRun_def
  by (induction evs arbitrary: g) (simp_all add: gridStep_oneAnimation)

lemma gridRun_length: "length (dotsRef (gridRun p g evs)) = length (dotsRef g)"
  unfolding gridRun_def
  by (induction evs arbitrary: g) (simp_all add: gridStep_length)

text \<open>
  Claim C2, as the code has it. Start from a grid at rest and let any sequence of
  pointer moves, clicks and tween completions happen. Then every dot has at most one
  animation in flight: none or one return tween when its flag is clear, exactly one
  inertia tween when its flag is set. While the flag of a dot is set, no pointer move and
  no click changes the dot or launches anything on it; the flag is cleared when the
  inertia tween completes, at the moment the elastic return is started (not when the
  return ends). While the flag is clear, so also during the elastic return, a pointer move
  or a click either leaves the dot as it is or launches a new displacement, and then the
  inertia tween is the only tween in flight: the return tween has been cancelled.
\<close>

theorem one_animation_per_dot:
  fixes p g0 evs
  assumes "list_all atRest (dotsRef g0)"
  defines "g \<equiv> gridRun p g0 evs"
  shows "length (dotsRef g) = length (dotsRef g0)
    \<and> list_all oneAnimation (dotsRef g)
    \<and> (\<forall>i < length (dotsRef g). inertiaApplied (fst (dotsRef g ! i)) \<longrightarrow>
          (\<exists>a c e f. snd (dotsRef g ! i) = [InertiaTween a c e f])
          \<and> dotsRef (gridStep p g (MouseMove now clientX clientY rectLeft rectTop)) ! i = dotsRef g ! i
          \<and> dotsRef (gridStep p g (MouseClick clientX clientY rectLeft rectTop)) ! i = dotsRef g ! i
          \<and> \<not> inertiaApplied (fst (dotsRef (gridStep p g (InertiaDone i endX endY)) ! i))
          \<and> (\<exists>f. snd (dotsRef (gridStep p g (InertiaDone i endX endY)) ! i) = [ReturnTween f]))
    \<and> (\<forall>i < length (dotsRef g). \<not> inertiaApplied (fst (dotsRef g ! i)) \<longrightarrow>
          (snd (dotsRef g ! i) = [] \<or> (\<exists>f. snd (dotsRef g ! i) = [ReturnTween f]))
          \<and> (dotsRef (gridStep p g (MouseClick clientX clientY rectLeft rectTop)) ! i = dotsRef g ! i
              \<or> (\<exists>a c e f. snd (dotsRef (gridStep p g (MouseClick clientX clientY rectLeft rectTop)) ! i)
                    = [InertiaTween a c e f]))
          \<and> (dotsRef (gridStep p g (MouseMove now clientX clientY rectLeft rectTop)) ! i = dotsRef g ! i
              \<or> (\<exists>a c e f. snd (dotsRef (gridStep p g (MouseMove now clientX clientY rectLeft rectTop)) ! i)
                    = [InertiaTween a c e f])))"
proof -
  have len: "length (dotsRef g) = length (dotsRef g0)"
    unfolding g_def by (rule gridRun_length)
  from assms(1) have "list_all oneAnimation (dotsRef g0)"
    by (simp add: list_all_iff atRest_oneAnimation)
  then have inv: "list_all oneAnimation (dotsRef g)"
    unfolding g_def by (rule gridRun_oneAnimation)
  have flagged: "\<forall>i < length (dotsRef g). inertiaApplied (fst (dotsRef g ! i)) \<longrightarrow>
          (\<exists>a c e f. snd (dotsRef g ! i) = [InertiaTween a c e f])
          \<and> dotsRef (gridStep p g (MouseMove now clientX clientY rectLeft rectTop)) ! i = dotsRef g ! i
          \<and> dotsRef (gridStep p g (MouseClick clientX clientY rectLeft rectTop)) ! i = dotsRef g ! i
          \<and> \<not> inertiaApplied (fst (dotsRef (gridStep p g (InertiaDone i endX endY)) ! i))
          \<and> (\<exists>f. snd (dotsRef (gridStep p g (InertiaDone i endX endY)) ! i) = [ReturnTween f])"
  proof (intro allI impI)
    fix i assume i: "i < length (dotsRef g)" and fl: "inertiaApplied (fst (dotsRef g ! i))"
    from inv i have one: "oneAnimation (dotsRef g ! i)" by (simp add: list_all_length)
    from oneAnimation_flag[OF one fl]
    have a: "\<exists>a c e f. snd (dotsRef g ! i) = [InertiaTween a c e f]" .
    have b: "dotsRef (gridStep p g (MouseMove now clientX clientY rectLeft rectTop)) ! i = dotsRef g ! i"
      using i fl by (simp add: onMove_def Let_def onMove_dot_guard)
    have c: "dotsRef (gridStep p g (MouseClick clientX clientY rectLeft rectTop)) ! i = dotsRef g ! i"
      using i fl by (simp add: onClick_def onClick_dot_guard)
    have d: "\<not> inertiaApplied (fst (dotsRef (gridStep p g (InertiaDone i endX endY)) ! i))
          \<and> (\<exists>f. snd (dotsRef (gridStep p g (InertiaDone i endX endY)) ! i) = [ReturnTween f])"
      using i inertiaComplete_flagged[OF one fl, of endX endY] by simp
    from a b c d show "(\<exists>a c e f. snd (dotsRef g ! i) = [InertiaTween a c e f])
          \<and> dotsRef (gridStep p g (MouseMove now clientX clientY rectLeft rectTop)) ! i = dotsRef g ! i
          \<and> dotsRef (gridStep p g (MouseClick clientX clientY rectLeft rectTop)) ! i = dotsRef g ! i
          \<and> \<not> inertiaApplied (fst (dotsRef (gridStep p g (InertiaDone i endX endY)) ! i))
          \<and> (\<exists>f. snd (dotsRef (gridStep p g (InertiaDone i endX endY)) ! i) = [ReturnTween f])"
      by blast
  qed
  have clear: "\<forall>i < length (dotsRef g). \<not> inertiaApplied (fst (dotsRef g ! i)) \<longrightarrow>
          (snd (dotsRef g ! i) = [] \<or> (\<exists>f. snd (dotsRef g ! i) = [ReturnTween f]))
          \<and> (dotsRef (gridStep p g (MouseClick clientX clientY rectLeft rectTop)) ! i = dotsRef g ! i
              \<or> (\<exists>a c e f. snd (dotsRef (gridStep p g (MouseClick clientX clientY rectLeft rectTop)) ! i)
                    = [InertiaTween a c e f]))
          \<and> (dotsRef (gridStep p g (MouseMove now clientX clientY rectLeft rectTop)) ! i = dotsRef g ! i
              \<or> (\<exists>a c e f. snd (dotsRef (gridStep p g (MouseMove now clientX clientY rectLeft rectTop)) ! i)
                    = [InertiaTween a c e f]))"
  proof (intro allI impI)
    fix i assume i: "i < length (dotsRef g)" and fl: "\<not> inertiaApplied (fst (dotsRef g ! i))"
    from inv i have one: "oneAnimation (dotsRef g ! i)" by (simp add: list_all_length)
    note a = oneAnimation_noflag[OF one fl]
    have b: "dotsRef (gridStep p g (MouseClick clientX clientY rectLeft rectTop)) ! i = dotsRef g ! i
              \<or> (\<exists>a c e f. snd (dotsRef (gridStep p g (MouseClick clientX clientY rectLeft rectTop)) ! i)
                    = [InertiaTween a c e f])"
      using i onClick_dot_cases[of p "clientX - rectLeft" "clientY - rectTop" "dotsRef g ! i"]
      by (auto simp: onClick_def)
    have c: "dotsRef (gridStep p g (MouseMove now clientX clientY rectLeft rectTop)) ! i = dotsRef g ! i
              \<or> (\<exists>a c e f. snd (dotsRef (gridStep p g (MouseMove now clientX clientY rectLeft rectTop)) ! i)
                    = [InertiaTween a c e f])"
      using i onMove_dot_cases[of p "onMove_pointer p now clientX clientY rectLeft rectTop (pointerRef g)" "dotsRef g ! i"]
      by (auto simp: onMove_def Let_def)
    from a b c show "(snd (dotsRef g ! i) = [] \<or> (\<exists>f. snd (dotsRef g ! i) = [ReturnTween f]))
          \<and> (dotsRef (gridStep p g (MouseClick clientX clientY rectLeft rectTop)) ! i = dotsRef g ! i
              \<or> (\<exists>a c e f. snd (dotsRef (gridStep p g (MouseClick clientX clientY rectLeft rectTop)) ! i)
                    = [InertiaTween a c e f]))
          \<and> (dotsRef (gridStep p g (MouseMove now clientX clientY rectLeft rectTop)) ! i = dotsRef g ! i
              \<or> (\<exists>a c e f. snd (dotsRef (gridStep p g (MouseMove now clientX clientY rectLeft rectTop)) ! i)
                    = [InertiaTween a c e f]))"
      by blast
  qed
  from len inv flagged clear show ?thesis by blast
qed


lemma exampleGrid_dots:
  "dotsRef exampleGrid =
     [(\<lparr>cx = 14, cy = 14, xOffset = 0, yOffset = 0, inertiaApplied = False\<rparr>, [])]"
  by (simp add: exampleGrid_def)

lemma example_click:
  "onClick_dot App_DotGrid 24 14
     (\<lparr>cx = 14, cy = 14, xOffset = ox, yOffset = oy, inertiaApplied = False\<rparr>, tws) =
   (\<lparr>cx = 14, cy = 14, xOffset = ox, yOffset = oy, inertiaApplied = True\<rparr>,
    [InertiaTween (- 48) 0 400 (1 / 2)])"
proof -
  have h: "hypot (- 10) 0 = 10"
    using hypot_axis[of "- 10"] by simp
  show ?thesis
    by (simp add: onClick_dot_def Let_def h gsap_to_def killTweensOf_def
        App_DotGrid_def DotGrid_defaults_def)
qed

lemma example_trace_1:
  "dotsRef (gridRun App_DotGrid exampleGrid [MouseClick 24 14 0 0]) =
     [(\<lparr>cx = 14, cy = 14, xOffset = 0, yOffset = 0, inertiaApplied = True\<rparr>,
       [InertiaTween (- 48) 0 400 (1 / 2)])]"
  by (simp add: gridRun_def onClick_def exampleGrid_dots example_click)

lemma example_trace_2:
  "dotsRef (gridRun App_DotGrid exampleGrid [MouseClick 24 14 0 0, InertiaDone 0 (- 3) 0]) =
     [(\<lparr>cx = 14, cy = 14, xOffset = - 3, yOffset = 0, inertiaApplied = False\<rparr>,
       [ReturnTween (1 / 2)])]"
  by (simp add: gridRun_def onClick_def exampleGrid_dots example_click
      inertiaComplete_def gsap_to_def)

lemma example_trace_3:
  "dotsRef (gridRun App_DotGrid exampleGrid
       [MouseClick 24 14 0 0, InertiaDone 0 (- 3) 0, MouseClick 24 14 0 0]) =
     [(\<lparr>cx = 14, cy = 14, xOffset = - 3, yOffset = 0, inertiaApplied = True\<rparr>,
       [InertiaTween (- 48) 0 400 (1 / 2)])]"
  by (simp add: gridRun_def onClick_def exampleGrid_dots example_click
      inertiaComplete_def gsap_to_def)

text \<open>
  Claim C2 as stated says that a dot cannot be triggered again before its elastic return
  has completed. On the example grid: a click 10 px beside the dot launches a
  displacement; the inertia tween completes with the dot displaced by (-3, 0), which
  starts the return tween and clears the flag at once; a second click, while the return
  tween is in flight and the offset is still (-3, 0), launches a new displacement: the
  flag is set again and the return tween is replaced by a new inertia tween.
\<close>

theorem retrigger_during_return_counterexample:
  "dotsRef (gridRun App_DotGrid exampleGrid [MouseClick 24 14 0 0, InertiaDone 0 (- 3) 0]) =
     [(\<lparr>cx = 14, cy = 14, xOffset = - 3, yOffset = 0, inertiaApplied = False\<rparr>,
       [ReturnTween (1 / 2)])]
   \<and> dotsRef (gridRun App_DotGrid exampleGrid
       [MouseClick 24 14 0 0, InertiaDone 0 (- 3) 0, MouseClick 24 14 0 0]) =
     [(\<lparr>cx = 14, cy = 14, xOffset = - 3, yOffset = 0, inertiaApplied = True\<rparr>,
       [InertiaTween (- 48) 0 400 (1 / 2)])]"
  using example_trace_2 example_trace_3 by simp

text \<open>
  On the example grid, after one click the dot's flag is set, and a further click or
  pointer move leaves it as it is; after the inertia tween has completed the flag is
  clear; after the second click of the trace above there is still one animation.
\<close>

theorem one_animation_per_dot_witness:
  "list_all atRest (dotsRef exampleGrid)
   \<and> (0::nat) < length (dotsRef (gridRun App_DotGrid exampleGrid [MouseClick 24 14 0 0]))
   \<and> inertiaApplied (fst (dotsRef (gridRun App_DotGrid exampleGrid [MouseClick 24 14 0 0]) ! 0))
   \<and> dotsRef (gridStep App_DotGrid (gridRun App_DotGrid exampleGrid [MouseClick 24 14 0 0])
        (MouseClick 24 14 0 0)) ! 0 =
       (\<lparr>cx = 14, cy = 14, xOffset = 0, yOffset = 0, inertiaApplied = True\<rparr>,
        [InertiaTween (- 48) 0 400 (1 / 2)])
   \<and> dotsRef (gridStep App_DotGrid (gridRun App_DotGrid exampleGrid [MouseClick 24 14 0 0])
        (MouseMove 1000 24 14 0 0)) ! 0 =
       (\<lparr>cx = 14, cy = 14, xOffset = 0, yOffset = 0, inertiaApplied = True\<rparr>,
        [InertiaTween (- 48) 0 400 (1 / 2)])
   \<and> \<not> inertiaApplied (fst (dotsRef (gridRun App_DotGrid exampleGrid
              [MouseClick 24 14 0 0, InertiaDone 0 (- 3) 0]) ! 0))
   \<and> list_all oneAnimation (dotsRef (gridRun App_DotGrid exampleGrid
              [MouseClick 24 14 0 0, InertiaDone 0 (- 3) 0, MouseClick 24 14 0 0]))"
proof -
  have h: "list_all atRest (dotsRef exampleGrid)"
    by (simp add: exampleGrid_dots atRest_def)
  let ?g = "gridRun App_DotGrid exampleGrid [MouseClick 24 14 0 0]"
  have i: "(0::nat) < length (dotsRef ?g)" by (simp add: example_trace_1)
  have f: "inertiaApplied (fst (dotsRef ?g ! 0))" by (simp add: example_trace_1)
  from one_animation_per_dot[OF h, of App_DotGrid "[MouseClick 24 14 0 0]" 1000 24 14 0 0] i f
  have a: "dotsRef (gridStep App_DotGrid ?g (MouseMove 1000 24 14 0 0)) ! 0 = dotsRef ?g ! 0"
    "dotsRef (gridStep App_DotGrid ?g (MouseClick 24 14 0 0)) ! 0 = dotsRef ?g ! 0"
    by blast+
  from one_animation_per_dot[OF h, of App_DotGrid
      "[MouseClick 24 14 0 0, InertiaDone 0 (- 3) 0, MouseClick 24 14 0 0]"]
  have c: "list_all oneAnimation (dotsRef (gridRun App_DotGrid exampleGrid
              [MouseClick 24 14 0 0, InertiaDone 0 (- 3) 0, MouseClick 24 14 0 0]))"
    by blast
  have d: "\<not> inertiaApplied (fst (dotsRef (gridRun App_DotGrid exampleGrid
              [MouseClick 24 14 0 0, InertiaDone 0 (- 3) 0]) ! 0))"
    by (simp add: example_trace_2)
  from h i f a c d show ?thesis by (simp add: example_trace_1)
qed

end
